theory Spec2Isabelle
  imports Main "HOL-Library.Word" "HOL-Library.Char_ord"
begin

section \<open>Go standard library: packages net, net/netip and strconv\<close>

text \<open>
  \<^verbatim>\<open>validateIp\<close> in src/main.go is \<^verbatim>\<open>net.ParseIP(r.IP).To4()\<close> and the change
  builder renders the address with \<^verbatim>\<open>ip.String()\<close>; \<^verbatim>\<open>nicUpdateHandler\<close> reads the
  commit flag with \<^verbatim>\<open>strconv.ParseBool\<close>. These library functions decide what the
  program accepts, so they are embedded here as the Go release named in the Dockerfile
  (golang 1.24) implements them. A Go string is a sequence of bytes, as a HOL
  \<^typ>\<open>string\<close> is; \<^verbatim>\<open>net.IP\<close> is a byte slice, with the nil slice modelled by the
  empty list (the functions below return nil or a slice of 4 or 16 bytes).
\<close>

type_synonym byte = "8 word"
type_synonym IP = "byte list"

datatype parseAddrError = ParseAddrError string

text \<open>\<^verbatim>\<open>netip.Addr\<close>: a 4-byte address, or a 16-byte address with its zone.\<close>

datatype Addr = Addr4 "byte list" | Addr6 "byte list" string

subsection \<open>netip.parseIPv4Fields\<close>

text \<open>
  The loop \<^verbatim>\<open>for i := 0; i < len(s); i++\<close> of \<^verbatim>\<open>parseIPv4Fields\<close>, by recursion on
  the characters still to read. The source's index tests at a dot are kept through the
  character read last: \<^verbatim>\<open>i == 0\<close> is \<open>prev = None\<close>, \<^verbatim>\<open>s[i-1] == '.'\<close> is
  \<open>prev = Some CHR ''.''\<close>, and \<^verbatim>\<open>i == len(s)-1\<close> is an empty rest. The values
  \<^verbatim>\<open>val\<close>, \<^verbatim>\<open>pos\<close>, \<^verbatim>\<open>digLen\<close> are Go \<^verbatim>\<open>int\<close>s that stay below 2560 here.
  The first equation is the code after the loop.
\<close>

fun parseIPv4Fields_loop ::
  "char option \<Rightarrow> string \<Rightarrow> nat \<Rightarrow> nat \<Rightarrow> nat \<Rightarrow> byte list \<Rightarrow> parseAddrError + byte list" where
  "parseIPv4Fields_loop prev [] val pos digLen fields =
     (if pos < 3 then Inl (ParseAddrError ''IPv4 address too short'')
      else Inr (fields[3 := of_nat val]))"
| "parseIPv4Fields_loop prev (c # rest) val pos digLen fields =
     (if CHR ''0'' \<le> c \<and> c \<le> CHR ''9'' then
        (if digLen = 1 \<and> val = 0 then
           Inl (ParseAddrError ''IPv4 field has octet with leading zero'')
         else
           (let val' = val * 10 + (of_char c - of_char CHR ''0'') in
            if val' > 255 then Inl (ParseAddrError ''IPv4 field has value >255'')
            else parseIPv4Fields_loop (Some c) rest val' pos (digLen + 1) fields))
      else if c = CHR ''.'' then
        (if prev = None \<or> rest = [] \<or> prev = Some CHR ''.'' then
           Inl (ParseAddrError ''IPv4 field must have at least one digit'')
         else if pos = 3 then Inl (ParseAddrError ''IPv4 address too long'')
         else parseIPv4Fields_loop (Some c) rest 0 (pos + 1) 0 (fields[pos := of_nat val]))
      else Inl (ParseAddrError ''unexpected character''))"

definition parseIPv4Fields :: "string \<Rightarrow> parseAddrError + byte list" where
  "parseIPv4Fields s = parseIPv4Fields_loop None s 0 0 0 [0, 0, 0, 0]"

definition parseIPv4 :: "string \<Rightarrow> parseAddrError + Addr" where
  "parseIPv4 s = (case parseIPv4Fields s of Inl err \<Rightarrow> Inl err | Inr fields \<Rightarrow> Inr (Addr4 fields))"

subsection \<open>netip.parseIPv6\<close>

text \<open>
  The inner loop of \<^verbatim>\<open>parseIPv6\<close> reads the hex digits of one group: \<open>off\<close> counts
  them and \<open>acc\<close> is their value (a \<^verbatim>\<open>uint32\<close> that the two checks keep below
  \<open>2 ^ 20\<close>, so it never wraps).
\<close>

definition hexval :: "char \<Rightarrow> nat option" where
  "hexval c =
     (if CHR ''0'' \<le> c \<and> c \<le> CHR ''9'' then Some (of_char c - of_char CHR ''0'')
      else if CHR ''a'' \<le> c \<and> c \<le> CHR ''f'' then Some (of_char c - of_char CHR ''a'' + 10)
      else if CHR ''A'' \<le> c \<and> c \<le> CHR ''F'' then Some (of_char c - of_char CHR ''A'' + 10)
      else None)"

fun parseIPv6_hex :: "string \<Rightarrow> nat \<Rightarrow> nat \<Rightarrow> parseAddrError + nat \<times> nat" where
  "parseIPv6_hex [] off acc = Inr (off, acc)"
| "parseIPv6_hex (c # cs) off acc =
     (case hexval c of
        None \<Rightarrow> Inr (off, acc)
      | Some v \<Rightarrow>
          (let acc' = acc * 16 + v in
           if off > 3 then Inl (ParseAddrError ''each group must have 4 or less digits'')
           else if acc' > 65535 then Inl (ParseAddrError ''IPv6 field has value >=2^16'')
           else parseIPv6_hex cs (off + 1) acc'))"

text \<open>
  The outer loop \<^verbatim>\<open>for i < 16\<close>. Its state is the unread string \<open>s\<close>, the byte
  index \<open>i\<close>, the address \<open>ip\<close> and the position of the ellipsis (\<open>None\<close> for the
  source's \<open>-1\<close>). \<open>parseIPv6_body\<close> is one pass through the loop's body: it fails
  (\<^verbatim>\<open>return\<close> with an error), leaves the loop (\<^verbatim>\<open>break\<close>) or reaches the end
  of the body, each with the state it has then.
\<close>

datatype 'a iteration = Break 'a | Continue 'a

definition parseIPv6_body ::
  "string \<Rightarrow> nat \<Rightarrow> byte list \<Rightarrow> nat option \<Rightarrow>
   parseAddrError + (string \<times> nat \<times> byte list \<times> nat option) iteration" where
  "parseIPv6_body s i ip ellipsis =
     (case parseIPv6_hex s 0 0 of
        Inl err \<Rightarrow> Inl err
      | Inr (off, acc) \<Rightarrow>
          if off = 0 then
            Inl (ParseAddrError ''each colon-separated field must have at least one digit'')
          else if off < length s \<and> s ! off = CHR ''.'' then
            (if ellipsis = None \<and> i \<noteq> 12 then
               Inl (ParseAddrError
                 ''embedded IPv4 address must replace the final 2 fields of the address'')
             else if i + 4 > 16 then
               Inl (ParseAddrError
                 ''too many hex fields to fit an embedded IPv4 at the end of the address'')
             else
               (case parseIPv4Fields s of
                  Inl err \<Rightarrow> Inl err
                | Inr fields \<Rightarrow>
                    Inr (Break ([], i + 4, take i ip @ fields @ drop (i + 4) ip, ellipsis))))
          else
            (let ip1 = ip[i := of_nat (acc div 256), i + 1 := of_nat acc];
                 i1 = i + 2;
                 s1 = drop off s
             in
               if s1 = [] then Inr (Break (s1, i1, ip1, ellipsis))
               else if hd s1 \<noteq> CHR '':'' then
                 Inl (ParseAddrError ''unexpected character, want colon'')
               else if length s1 = 1 then
                 Inl (ParseAddrError ''colon must be followed by more characters'')
               else
                 (let s2 = tl s1 in
                  if hd s2 = CHR '':'' then
                    (if ellipsis \<noteq> None then Inl (ParseAddrError ''multiple :: in address'')
                     else
                       (let s3 = tl s2 in
                        if s3 = [] then Inr (Break (s3, i1, ip1, Some i1))
                        else Inr (Continue (s3, i1, ip1, Some i1))))
                  else Inr (Continue (s2, i1, ip1, ellipsis)))))"

text \<open>
  The loop itself. Every pass that reaches the end of the body has added 2 to \<open>i\<close>
  (the recursion takes the \<open>i\<close> the body returns when it is larger, which it always
  is: lemma \<open>parseIPv6_body_Continue\<close>), so the loop runs at most 8 times.
\<close>

function parseIPv6_loop ::
  "string \<Rightarrow> nat \<Rightarrow> byte list \<Rightarrow> nat option \<Rightarrow>
   parseAddrError + (string \<times> nat \<times> byte list \<times> nat option)" where
  "parseIPv6_loop s i ip ellipsis =
     (if \<not> i < 16 then Inr (s, i, ip, ellipsis)
      else
        (case parseIPv6_body s i ip ellipsis of
           Inl err \<Rightarrow> Inl err
         | Inr (Break st) \<Rightarrow> Inr st
         | Inr (Continue (s', i', ip', ellipsis')) \<Rightarrow>
             if i < i' then parseIPv6_loop s' i' ip' ellipsis' else Inr (s', i', ip', ellipsis')))"
  by pat_completeness auto
termination
  by (relation "measure (\<lambda>(s, i, ip, ellipsis). 16 - i)") auto

text \<open>
  Expanding the ellipsis: \<^verbatim>\<open>for j := i - 1; j >= ellipsis; j-- { ip[j+n] = ip[j] }\<close>
  and then \<^verbatim>\<open>clear(ip[ellipsis : ellipsis+n])\<close>.
\<close>

definition expand_ellipsis :: "byte list \<Rightarrow> nat \<Rightarrow> nat \<Rightarrow> byte list" where
  "expand_ellipsis ip ellipsis i =
     (let n = 16 - i;
          moved = foldl (\<lambda>a j. a[j + n := a ! j]) ip (rev [ellipsis..<i])
      in foldl (\<lambda>a k. a[k := 0]) moved [ellipsis..<ellipsis + n])"

definition parseIPv6 :: "string \<Rightarrow> parseAddrError + Addr" where
  "parseIPv6 inp =
     (let pct = CHR ''%'' \<in> set inp;
          s = takeWhile (\<lambda>c. c \<noteq> CHR ''%'') inp;
          zone = (if pct then tl (dropWhile (\<lambda>c. c \<noteq> CHR ''%'') inp) else [])
      in
        if pct \<and> zone = [] then Inl (ParseAddrError ''zone must be a non-empty string'')
        else
          (let lead = (length s \<ge> 2 \<and> s ! 0 = CHR '':'' \<and> s ! 1 = CHR '':'');
               ellipsis = (if lead then Some 0 else None);
               s = (if lead then drop 2 s else s)
           in
             if lead \<and> s = [] then Inr (Addr6 (replicate 16 0) zone)
             else
               (case parseIPv6_loop s 0 (replicate 16 0) ellipsis of
                  Inl err \<Rightarrow> Inl err
                | Inr (s', i, ip, ellipsis') \<Rightarrow>
                    if s' \<noteq> [] then Inl (ParseAddrError ''trailing garbage after address'')
                    else if i < 16 then
                      (case ellipsis' of
                         None \<Rightarrow> Inl (ParseAddrError ''address string too short'')
                       | Some e \<Rightarrow> Inr (Addr6 (expand_ellipsis ip e i) zone))
                    else if ellipsis' \<noteq> None then
                      Inl (ParseAddrError ''the :: must expand to at least one field of zeros'')
                    else Inr (Addr6 ip zone))))"

subsection \<open>netip.ParseAddr, net.ParseIP and IP.To4\<close>

fun ParseAddr_scan :: "string \<Rightarrow> string \<Rightarrow> parseAddrError + Addr" where
  "ParseAddr_scan s [] = Inl (ParseAddrError ''unable to parse IP'')"
| "ParseAddr_scan s (c # cs) =
     (if c = CHR ''.'' then parseIPv4 s
      else if c = CHR '':'' then parseIPv6 s
      else if c = CHR ''%'' then Inl (ParseAddrError ''missing IPv6 address'')
      else ParseAddr_scan s cs)"

definition ParseAddr :: "string \<Rightarrow> parseAddrError + Addr" where
  "ParseAddr s = ParseAddr_scan s s"

definition v4InV6Prefix :: "byte list" where
  "v4InV6Prefix = [0, 0, 0, 0, 0, 0, 0, 0, 0, 0, 0xff, 0xff]"

fun Zone :: "Addr \<Rightarrow> string" where
  "Zone (Addr4 b) = []"
| "Zone (Addr6 b z) = z"

fun As16 :: "Addr \<Rightarrow> byte list" where
  "As16 (Addr4 b) = v4InV6Prefix @ b"
| "As16 (Addr6 b z) = b"

text \<open>\<^verbatim>\<open>net.ParseIP\<close>: the 16-byte form of the address, or nil.\<close>

definition ParseIP :: "string \<Rightarrow> IP" where
  "ParseIP s =
     (case ParseAddr s of
        Inl err \<Rightarrow> []
      | Inr addr \<Rightarrow> if Zone addr \<noteq> [] then [] else As16 addr)"

definition isZeros :: "byte list \<Rightarrow> bool" where
  "isZeros p = list_all (\<lambda>b. b = 0) p"

definition To4 :: "IP \<Rightarrow> IP" where
  "To4 ip =
     (if length ip = 4 then ip
      else if length ip = 16 \<and> isZeros (take 10 ip) \<and> ip ! 10 = 0xff \<and> ip ! 11 = 0xff
        then drop 12 ip
      else [])"

subsection \<open>IP.String\<close>

definition digits :: string where
  "digits = ''0123456789abcdef''"

definition appendDecimal :: "string \<Rightarrow> byte \<Rightarrow> string" where
  "appendDecimal b x =
     (let b = (if x \<ge> 100 then b @ [digits ! unat (x div 100)] else b);
          b = (if x \<ge> 10 then b @ [digits ! unat (x div 10 mod 10)] else b)
      in b @ [digits ! unat (x mod 10)])"

definition string4 :: "byte list \<Rightarrow> string" where
  "string4 p =
     appendDecimal (appendDecimal (appendDecimal (appendDecimal [] (p ! 0) @ ''.'') (p ! 1) @ ''.'')
       (p ! 2) @ ''.'') (p ! 3)"

definition hexString :: "byte list \<Rightarrow> string" where
  "hexString b = concat (map (\<lambda>tn. [digits ! unat (tn div 16), digits ! unat (tn mod 16)]) b)"

definition v6u16 :: "byte list \<Rightarrow> nat \<Rightarrow> nat" where
  "v6u16 ip i = unat (ip ! (2 * i)) * 256 + unat (ip ! (2 * i + 1))"

definition appendHex :: "string \<Rightarrow> nat \<Rightarrow> string" where
  "appendHex b x =
     (let b = (if x \<ge> 0x1000 then b @ [digits ! (x div 0x1000)] else b);
          b = (if x \<ge> 0x100 then b @ [digits ! (x div 0x100 mod 16)] else b);
          b = (if x \<ge> 0x10 then b @ [digits ! (x div 0x10 mod 16)] else b)
      in b @ [digits ! (x mod 16)])"

text \<open>
  \<^verbatim>\<open>Addr.string6\<close>: the longest run of at least two zero groups is written \<open>::\<close>.
  \<^verbatim>\<open>zeroStart\<close> and \<^verbatim>\<open>zeroEnd\<close> start at 255. In the second loop the source
  sets \<^verbatim>\<open>i = zeroEnd\<close> at the run; \<open>zeroRun\<close> only returns \<open>zeroStart < zeroEnd\<close>, and
  the loop below stops where that would not hold.
\<close>

definition zeroRun :: "byte list \<Rightarrow> nat \<times> nat" where
  "zeroRun ip =
     foldl (\<lambda>(zeroStart, zeroEnd) i.
              (let j = i + length (takeWhile (\<lambda>k. v6u16 ip k = 0) [i..<8]);
                   l = j - i
               in if l \<ge> 2 \<and> l > zeroEnd - zeroStart then (i, j) else (zeroStart, zeroEnd)))
       (255, 255) [0..<8]"

function string6_loop :: "byte list \<Rightarrow> nat \<Rightarrow> nat \<Rightarrow> nat \<Rightarrow> string \<Rightarrow> string" where
  "string6_loop ip zeroStart zeroEnd i ret =
     (if \<not> i < 8 then ret
      else if i = zeroStart then
        (if zeroEnd \<ge> 8 \<or> zeroEnd < i then ret @ ''::''
         else string6_loop ip zeroStart zeroEnd (zeroEnd + 1)
                (appendHex (ret @ ''::'') (v6u16 ip zeroEnd)))
      else
        string6_loop ip zeroStart zeroEnd (i + 1)
          (appendHex (if i > 0 then ret @ '':'' else ret) (v6u16 ip i)))"
  by pat_completeness auto
termination
  by (relation "measure (\<lambda>(ip, zeroStart, zeroEnd, i, ret). 8 - i)") auto

definition string6 :: "byte list \<Rightarrow> string" where
  "string6 ip = (case zeroRun ip of (zeroStart, zeroEnd) \<Rightarrow> string6_loop ip zeroStart zeroEnd 0 [])"

definition IP_String :: "IP \<Rightarrow> string" where
  "IP_String ip =
     (if length ip = 0 then ''<nil>''
      else if length ip \<noteq> 4 \<and> length ip \<noteq> 16 then ''?'' @ hexString ip
      else (let p4 = To4 ip in if length p4 = 4 then string4 p4 else string6 ip))"

subsection \<open>strconv.ParseBool\<close>

datatype error =
    InvalidAddress string
  | RemoteUpdateFailure string
  | NotificationFailure string
  | SyntaxError string string

text \<open>
  Go's \<^verbatim>\<open>error\<close> values, by where they come from: \<open>InvalidAddress\<close> is the
  \<^verbatim>\<open>fmt.Errorf\<close> of \<^verbatim>\<open>validateIp\<close> with its message, \<open>RemoteUpdateFailure\<close> an error
  of the Route53 client, \<open>NotificationFailure\<close> an error of the Pushover client and
  \<open>SyntaxError\<close> the error of \<^verbatim>\<open>strconv\<close>. \<open>None\<close> is Go's nil error.
  \<^verbatim>\<open>ParseBool\<close> returns false together with its error.
\<close>

definition ParseBool :: "string \<Rightarrow> bool \<times> error option" where
  "ParseBool str =
     (if str \<in> set [''1'', ''t'', ''T'', ''true'', ''TRUE'', ''True''] then (True, None)
      else if str \<in> set [''0'', ''f'', ''F'', ''false'', ''FALSE'', ''False''] then (False, None)
      else (False, Some (SyntaxError ''ParseBool'' str)))"

section \<open>Data model of src/main.go\<close>

type_synonym Hostname = string
type_synonym ZoneID = string
type_synonym TTL = "64 word"

record HostConfig =
  ZoneId :: string
  Ttl :: "64 word"
  AdditionalHosts :: "string list"

record PushoverConfig =
  ApiToken :: string
  RecipientKey :: string

record AppConfig =
  Port :: int
  Records :: "string \<rightharpoonup> HostConfig"
  Pushover :: PushoverConfig

record UpdateRequest =
  Host :: string
  IP :: string
  Commit :: bool

text \<open>
  The Route53 request types of the AWS SDK that \<^verbatim>\<open>MakeChangeRequest\<close> fills in. The
  source takes the address of each value; no pointer is nil. Three fields that carry the
  name of their own type in Go are named apart from it here: \<open>Batch\<close> is the input's
  \<^verbatim>\<open>ChangeBatch\<close>, \<open>RecordSet\<close> a change's \<^verbatim>\<open>ResourceRecordSet\<close>, and (below)
  \<open>MessageText\<close> the \<^verbatim>\<open>Message\<close> of a Pushover message.
\<close>

datatype ChangeAction = ChangeActionCreate | ChangeActionDelete | ChangeActionUpsert

datatype RRType = RRTypeA | RRTypeTxt

record ResourceRecord =
  Value :: string

record ResourceRecordSet =
  Name :: string
  Type :: RRType
  TTL :: "64 word"
  ResourceRecords :: "ResourceRecord list"

record Change =
  Action :: ChangeAction
  RecordSet :: ResourceRecordSet

record ChangeBatch =
  Changes :: "Change list"
  Comment :: string

record ChangeResourceRecordSetsInput =
  Batch :: ChangeBatch
  HostedZoneId :: string

text \<open>
  The output of the Route53 call and the response of Pushover are opaque to the
  program, which only logs them; each may be nil.
\<close>

type_synonym ChangeResourceRecordSetsOutput = string

record Message =
  MessageText :: string
  Priority :: int

type_synonym Response = string

section \<open>Effects: the trace of a request\<close>

text \<open>
  \<^verbatim>\<open>ProcessIpChange\<close> returns nothing: what it does is what it logs, the calls it
  makes to the Route53 client and the notifications it gives. The model threads a trace
  of these events, oldest first:
  \<^item> \<open>Log\<close>: a zerolog record (level, attached values, message) handed to the logger;
  \<^item> \<open>ChangeResourceRecordSetsCall\<close>: the remote DNS call, with its input and what it
    returned;
  \<^item> \<open>NotifyPushoverCall\<close>: \<^verbatim>\<open>NotifyPushover\<close> was called for a host with an error
    or nil;
  \<^item> \<open>SendMessageCall\<close>: the Pushover client was asked to send a message (API token,
    recipient key, message) and what it returned.
\<close>

datatype Level = DebugLevel | InfoLevel | ErrorLevel

datatype LogValue =
    LogRequest UpdateRequest
  | LogErr error
  | LogInput ChangeResourceRecordSetsInput
  | LogOutput "ChangeResourceRecordSetsOutput option"
  | LogStr string string
  | LogResponse "Response option"

datatype event =
    Log Level "LogValue list" string
  | ChangeResourceRecordSetsCall ChangeResourceRecordSetsInput
      "ChangeResourceRecordSetsOutput option" "error option"
  | NotifyPushoverCall string "error option"
  | SendMessageCall string string Message "Response option" "error option"

text \<open>
  The world outside the program: the Route53 client, the clock and the Pushover service.
  Each answers as a function of everything that has happened so far (the trace) and of
  the request, which is the most a deterministic collaborator can depend on.
\<close>

type_synonym Client =
  "event list \<Rightarrow> ChangeResourceRecordSetsInput \<Rightarrow>
   ChangeResourceRecordSetsOutput option \<times> error option"

record World =
  Now :: "event list \<Rightarrow> string"
  SendMessage :: "event list \<Rightarrow> string \<Rightarrow> Message \<Rightarrow> string \<Rightarrow> Response option \<times> error option"

section \<open>The functions of src/main.go\<close>

definition getHostname :: "UpdateRequest \<Rightarrow> Hostname" where
  "getHostname r = Host r"

definition validateIp :: "UpdateRequest \<Rightarrow> error + IP" where
  "validateIp r =
     (let ip = To4 (ParseIP (IP r)) in
      if ip = [] then Inl (InvalidAddress ([CHR 0x27] @ IP r @ [CHR 0x27] @ '' is not a valid IpV4 address''))
      else Inr ip)"

definition PriorityNormal :: int where
  "PriorityNormal = 0"

definition NotifyPushover :: "World \<Rightarrow> PushoverConfig \<Rightarrow> string \<Rightarrow> error option \<Rightarrow> event list \<Rightarrow> event list" where
  "NotifyPushover w config host err tr =
     (let tr0 = tr @ [NotifyPushoverCall host err] in
      if ApiToken config = [] \<or> RecipientKey config = [] then
        tr0 @ [Log InfoLevel [] ''Pushover notification not configured.'']
      else
        (let msgStr = (if err \<noteq> None then ''Error: IP Update Failed for: '' @ host
                       else ''IP Updated for: '' @ host);
             message = \<lparr>MessageText = msgStr, Priority = PriorityNormal\<rparr>;
             (response, err') = SendMessage w tr0 (ApiToken config) message (RecipientKey config);
             tr1 = tr0 @ [SendMessageCall (ApiToken config) (RecipientKey config) message response err'];
             tr2 = (case err' of
                      Some e \<Rightarrow> tr1 @ [Log ErrorLevel [LogErr e] ''Error publishing Pushover Notification'']
                    | None \<Rightarrow> tr1)
         in tr2 @ [Log InfoLevel [LogResponse response] ''Pushover Response'']))"

text \<open>
  \<^verbatim>\<open>MakeChangeRequest\<close> reads the clock; \<open>now\<close> is the string
  \<^verbatim>\<open>time.Now().String()\<close> gave it.
\<close>

definition MakeChangeRequest :: "string \<Rightarrow> ZoneID \<Rightarrow> Hostname \<Rightarrow> IP \<Rightarrow> TTL \<Rightarrow> ChangeResourceRecordSetsInput" where
  "MakeChangeRequest now zoneId hostname ip ttl =
     (let resourceHostName = hostname @ ''.'';
          resourceTtl = ttl;
          resourceZoneId = zoneId;
          resourceIp = IP_String ip;
          comment = ''Unifi Updated IP Address'';
          lastUpdatedMsg = [CHR 0x22] @ ''Last Updated: '' @ now @ [CHR 0x22]
      in \<lparr>Batch = \<lparr>Changes =
              [\<lparr>Action = ChangeActionUpsert,
                RecordSet = \<lparr>Name = resourceHostName, Type = RRTypeA, TTL = resourceTtl,
                              ResourceRecords = [\<lparr>Value = resourceIp\<rparr>]\<rparr>\<rparr>,
               \<lparr>Action = ChangeActionUpsert,
                RecordSet = \<lparr>Name = resourceHostName, Type = RRTypeTxt, TTL = resourceTtl,
                              ResourceRecords = [\<lparr>Value = lastUpdatedMsg\<rparr>]\<rparr>\<rparr>],
             Comment = comment\<rparr>,
          HostedZoneId = resourceZoneId\<rparr>)"

definition UpdateRoute53Record ::
  "World \<Rightarrow> Client \<Rightarrow> HostConfig \<Rightarrow> Hostname \<Rightarrow> IP \<Rightarrow> bool \<Rightarrow> event list \<Rightarrow> error option \<times> event list" where
  "UpdateRoute53Record w client hostConfig hostname ip commit tr =
     (let zoneId = ZoneId hostConfig;
          ttl = Ttl hostConfig;
          input = MakeChangeRequest (Now w tr) zoneId hostname ip ttl;
          tr1 = tr @ [Log DebugLevel [LogInput input] []]
      in
        if commit then
          (let (output, err) = client tr1 input;
               tr2 = tr1 @ [ChangeResourceRecordSetsCall input output err]
           in case err of
                Some e \<Rightarrow>
                  (Some e, tr2 @ [Log ErrorLevel [LogErr e, LogOutput output, LogInput input]
                                    ''Error Updating Route53 RecordSets''])
              | None \<Rightarrow>
                  (None, tr2 @ [Log InfoLevel [LogStr ''hostname'' hostname, LogOutput output]
                                  ''RecordSet updated successfully.'']))
        else (None, tr1))"

text \<open>
  The loop \<^verbatim>\<open>for _, additionalHost := range hostConfig.AdditionalHosts\<close> of
  \<^verbatim>\<open>ProcessIpChange\<close>.
\<close>

fun ProcessIpChange_additional ::
  "World \<Rightarrow> Client \<Rightarrow> AppConfig \<Rightarrow> HostConfig \<Rightarrow> IP \<Rightarrow> bool \<Rightarrow> string list \<Rightarrow> event list \<Rightarrow> event list" where
  "ProcessIpChange_additional w client appConfig hostConfig ip commit [] tr = tr"
| "ProcessIpChange_additional w client appConfig hostConfig ip commit (additionalHost # rest) tr =
     (let hostname = additionalHost;
          (err, tr1) = UpdateRoute53Record w client hostConfig hostname ip commit tr;
          tr2 = (if err \<noteq> None then NotifyPushover w (Pushover appConfig) hostname err tr1 else tr1)
      in ProcessIpChange_additional w client appConfig hostConfig ip commit rest tr2)"

definition ProcessIpChange :: "World \<Rightarrow> Client \<Rightarrow> AppConfig \<Rightarrow> UpdateRequest \<Rightarrow> event list \<Rightarrow> event list" where
  "ProcessIpChange w client appConfig request tr =
     (case validateIp request of
        Inl err \<Rightarrow> tr @ [Log ErrorLevel [LogRequest request, LogErr err] ''Invalid IP specified'']
      | Inr ip \<Rightarrow>
          (case Records appConfig (Host request) of
             Some hostConfig \<Rightarrow>
               (let (err, tr1) = UpdateRoute53Record w client hostConfig (getHostname request) ip
                                   (Commit request) tr;
                    tr2 = NotifyPushover w (Pushover appConfig) (Host request) err tr1
                in if err \<noteq> None then
                     ProcessIpChange_additional w client appConfig hostConfig ip (Commit request)
                       (AdditionalHosts hostConfig) tr2
                   else tr2)
           | None \<Rightarrow>
               tr @ [Log ErrorLevel [LogRequest request] ''Hostname not found in config, ignoring'']))"

text \<open>
  \<^verbatim>\<open>nicUpdateHandler\<close>, the closure in \<^verbatim>\<open>main\<close>. An \<^verbatim>\<open>http.Request\<close> is, after
  \<^verbatim>\<open>ParseForm\<close>, its form: each parameter name that occurs, with its values in order.
  \<^verbatim>\<open>FormValue\<close> is the first value of a name, or the empty string.
  \<open>nicUpdateHandler_request\<close> is the \<^verbatim>\<open>UpdateRequest\<close> the handler builds (lines
  276 to 284), \<open>nicUpdateHandler\<close> the whole handler.
\<close>

record Request =
  Form :: "string \<rightharpoonup> string list"

definition FormValue :: "Request \<Rightarrow> string \<Rightarrow> string" where
  "FormValue req key = (case Form req key of Some (v # vs) \<Rightarrow> v | _ \<Rightarrow> [])"

definition nicUpdateHandler_request :: "Request \<Rightarrow> UpdateRequest" where
  "nicUpdateHandler_request req =
     (let commitChanges = True;
          commitChanges = (if Form req ''commit'' \<noteq> None
                           then fst (ParseBool (FormValue req ''commit'')) else commitChanges)
      in \<lparr>Host = FormValue req ''hostname'', IP = FormValue req ''ip'', Commit = commitChanges\<rparr>)"

definition nicUpdateHandler :: "World \<Rightarrow> Client \<Rightarrow> AppConfig \<Rightarrow> Request \<Rightarrow> event list \<Rightarrow> event list" where
  "nicUpdateHandler w r53Client appConfig req tr =
     (let updateRequest = nicUpdateHandler_request req;
          tr1 = tr @ [Log InfoLevel [LogRequest updateRequest] ''Received Update Request'']
      in ProcessIpChange w r53Client appConfig updateRequest tr1)"

section \<open>Reading a trace\<close>

text \<open>
  The remote DNS calls of a trace (input and returned error), its notifications (host
  and error), and the Pushover messages it sent, each in order.
\<close>

fun remote_calls :: "event list \<Rightarrow> (ChangeResourceRecordSetsInput \<times> error option) list" where
  "remote_calls [] = []"
| "remote_calls (ChangeResourceRecordSetsCall input output err # tr) = (input, err) # remote_calls tr"
| "remote_calls (e # tr) = remote_calls tr"

fun notifications :: "event list \<Rightarrow> (string \<times> error option) list" where
  "notifications [] = []"
| "notifications (NotifyPushoverCall host err # tr) = (host, err) # notifications tr"
| "notifications (e # tr) = notifications tr"

fun messages_sent :: "event list \<Rightarrow> string list" where
  "messages_sent [] = []"
| "messages_sent (SendMessageCall token recipient message response err # tr) =
     MessageText message # messages_sent tr"
| "messages_sent (e # tr) = messages_sent tr"

section \<open>The calls and notifications of a fan-out\<close>

text \<open>
  The remote calls of a fan-out over \<open>hosts\<close> as the specification has them: one change request per
  host, in order, with the zone, TTL and address given, the \<open>k\<close>-th built at clock
  reading \<open>nows ! k\<close> and answered with \<open>errs ! k\<close>. And its notifications: one for
  each host whose answer is an error, in order.
\<close>

fun fanout_calls ::
  "ZoneID \<Rightarrow> TTL \<Rightarrow> IP \<Rightarrow> string list \<Rightarrow> string list \<Rightarrow> error option list \<Rightarrow>
   (ChangeResourceRecordSetsInput \<times> error option) list" where
  "fanout_calls zone ttl ip (h # hs) (now # nows) (e # es) =
     (MakeChangeRequest now zone h ip ttl, e) # fanout_calls zone ttl ip hs nows es"
| "fanout_calls zone ttl ip hs nows es = []"

fun failure_notifications :: "string list \<Rightarrow> error option list \<Rightarrow> (string \<times> error option) list" where
  "failure_notifications (h # hs) (Some e # es) = (h, Some e) # failure_notifications hs es"
| "failure_notifications (h # hs) (None # es) = failure_notifications hs es"
| "failure_notifications hs es = []"

section \<open>The scenario of the specification\<close>

text \<open>
  The configuration and request of the specification's scenario: host \<open>example.com\<close> in
  zone \<open>Z1\<close> with TTL 300 and the additional hosts \<open>backup.example.com\<close> and
  \<open>backup2.example.com\<close>, Pushover configured; a clock that always reads \<open>T\<close>; a
  Pushover service that accepts every message; a Route53 client that accepts every
  change, one that rejects every change, and one that rejects every change but the one
  for \<open>backup.example.com\<close>.
\<close>

definition example_host :: HostConfig where
  "example_host = \<lparr>ZoneId = ''Z1'', Ttl = 300,
     AdditionalHosts = [''backup.example.com'', ''backup2.example.com'']\<rparr>"

definition example_config :: AppConfig where
  "example_config = \<lparr>Port = 8080, Records = [''example.com'' \<mapsto> example_host],
     Pushover = \<lparr>ApiToken = ''token'', RecipientKey = ''user''\<rparr>\<rparr>"

definition example_request :: "bool \<Rightarrow> UpdateRequest" where
  "example_request commit = \<lparr>Host = ''example.com'', IP = ''203.0.113.5'', Commit = commit\<rparr>"

definition example_world :: World where
  "example_world = \<lparr>Now = (\<lambda>tr. ''T''), SendMessage = (\<lambda>tr token message recipient. (Some ''ok'', None))\<rparr>"

definition accepting_client :: Client where
  "accepting_client tr input = (Some ''INSYNC'', None)"

definition rejecting_client :: Client where
  "rejecting_client tr input = (None, Some (RemoteUpdateFailure ''AccessDenied''))"

definition backup_only_client :: Client where
  "backup_only_client tr input =
     (if map (\<lambda>c. Name (RecordSet c)) (Changes (Batch input)) =
           [''backup.example.com.'', ''backup.example.com.'']
      then (Some ''INSYNC'', None)
      else (None, Some (RemoteUpdateFailure ''AccessDenied'')))"

text \<open>
  An inbound request for that host and address, with the commit parameter given or not.
\<close>

definition example_http_request :: "string option \<Rightarrow> Request" where
  "example_http_request commit =
     \<lparr>Form = (case commit of
                None \<Rightarrow> [''hostname'' \<mapsto> [''example.com''], ''ip'' \<mapsto> [''203.0.113.5'']]
              | Some v \<Rightarrow> [''hostname'' \<mapsto> [''example.com''], ''ip'' \<mapsto> [''203.0.113.5''],
                          ''commit'' \<mapsto> [v]])\<rparr>"

section \<open>Notions used in the proofs\<close>

text \<open>
  The decimal form of a number below 1000 as \<^verbatim>\<open>appendDecimal\<close> writes it, and the text
  of the first \<open>pos\<close> fields of a dotted quad, each followed by its dot.
\<close>

definition decn :: "nat \<Rightarrow> string" where
  "decn n = (if n \<ge> 100 then [digits ! (n div 100)] else []) @
            (if n \<ge> 10 then [digits ! (n div 10 mod 10)] else []) @ [digits ! (n mod 10)]"

definition fields_prefix :: "byte list \<Rightarrow> nat \<Rightarrow> string" where
  "fields_prefix fs pos = concat (map (\<lambda>b. decn (unat b) @ ''.'') (take pos fs))"

declare parseIPv6_loop.simps [simp del]

declare string6_loop.simps [simp del]

section \<open>Decimal digits\<close>

lemma nat_less_10_cases:
  assumes "d < (10::nat)"
  shows "d = 0 \<or> d = 1 \<or> d = 2 \<or> d = 3 \<or> d = 4 \<or> d = 5 \<or> d = 6 \<or> d = 7 \<or> d = 8 \<or> d = 9"
  using assms by arith

lemma of_char_digit: "d < 10 \<Longrightarrow> of_char (digits ! d) = (48 + d :: nat)"
  using nat_less_10_cases [of d] by (auto simp: digits_def)

lemma digit_is_digit: "d < 10 \<Longrightarrow> CHR ''0'' \<le> digits ! d \<and> digits ! d \<le> CHR ''9''"
  by (simp add: less_eq_char_def of_char_digit)

lemma digit_value: "d < 10 \<Longrightarrow> of_char (digits ! d) - of_char CHR ''0'' = (d :: nat)"
  by (simp add: of_char_digit)

lemma digit_not_dot: "d < 10 \<Longrightarrow> digits ! d \<noteq> CHR ''.''"
proof
  assume "d < 10" "digits ! d = CHR ''.''"
  then have "(of_char (digits ! d) :: nat) = of_char CHR ''.''" by simp
  with \<open>d < 10\<close> show False by (simp add: of_char_digit)
qed

lemma is_digit_char:
  assumes "CHR ''0'' \<le> c" "c \<le> CHR ''9''"
  shows "of_char c - of_char CHR ''0'' < (10 :: nat) \<and> c = digits ! (of_char c - of_char CHR ''0'')"
proof -
  have b: "48 \<le> (of_char c :: nat)" "(of_char c :: nat) \<le> 57"
    using assms by (simp_all add: less_eq_char_def)
  then have lt: "of_char c - 48 < (10::nat)" by simp
  have "(of_char (digits ! (of_char c - 48)) :: nat) = 48 + (of_char c - 48)"
    using lt by (rule of_char_digit)
  also have "\<dots> = of_char c" using b by simp
  finally have "digits ! (of_char c - 48) = c" by (simp only: of_char_eq_iff)
  then show ?thesis using lt by simp
qed


lemma appendDecimal_decn: "appendDecimal b x = b @ decn (unat x)"
proof -
  have "(100 \<le> x) = (100 \<le> unat x)" "(10 \<le> x) = (10 \<le> unat x)"
    by (simp_all add: word_le_nat_alt)
  then show ?thesis
    by (simp add: appendDecimal_def decn_def Let_def unat_div unat_mod)
qed

lemma string4_decn:
  "string4 [a, b, c, d] =
     decn (unat a) @ ''.'' @ decn (unat b) @ ''.'' @ decn (unat c) @ ''.'' @ decn (unat d)"
  by (simp add: string4_def appendDecimal_decn)

lemma decn_digit: "d < 10 \<Longrightarrow> decn d = [digits ! d]"
  by (simp add: decn_def)

lemma decn_snoc:
  assumes "1 \<le> v" "d < 10" "v * 10 + d \<le> 255"
  shows "decn (v * 10 + d) = decn v @ [digits ! d]"
proof -
  have a: "(v * 10 + d) mod 10 = d" "(v * 10 + d) div 10 = v" using assms by simp_all
  have b: "(v * 10 + d) div 100 = v div 10" using assms by simp
  have c: "v < 100" using assms by simp
  show ?thesis using assms c by (auto simp: decn_def a b)
qed

lemma decn_not_Nil: "decn n \<noteq> []"
  by (simp add: decn_def)

lemma length_decn: "length (decn n) = (if n \<ge> 100 then 3 else if n \<ge> 10 then 2 else 1)"
  by (simp add: decn_def)

lemma last_decn: "last (decn n) = digits ! (n mod 10)"
  by (simp add: decn_def)

section \<open>parseIPv4Fields accepts exactly the dotted quads that string4 writes\<close>

lemma loop_digit_step:
  assumes "d < 10" "\<not> (digLen = 1 \<and> val = 0)" "val * 10 + d \<le> 255"
  shows "parseIPv4Fields_loop prev (digits ! d # rest) val pos digLen fs =
         parseIPv4Fields_loop (Some (digits ! d)) rest (val * 10 + d) pos (digLen + 1) fs"
  using assms digit_is_digit [of d] digit_value [of d] by (auto simp: Let_def)

lemma loop_decn:
  assumes "n \<le> 255"
  shows "parseIPv4Fields_loop prev (decn n @ rest) 0 pos 0 fs =
         parseIPv4Fields_loop (Some (digits ! (n mod 10))) rest n pos (length (decn n)) fs"
proof -
  have d0: "n mod 10 < 10" "n div 10 mod 10 < 10" by simp_all
  have d2: "n div 100 < 10" using assms by simp
  have e2: "n div 10 * 10 + n mod 10 = n" by (rule div_mult_mod_eq)
  have "n div 100 = n div 10 div 10" by (simp add: div_mult2_eq)
  then have e1: "n div 100 * 10 + n div 10 mod 10 = n div 10" by (simp only: div_mult_mod_eq)
  consider "n < 10" | "10 \<le> n" "n < 100" | "100 \<le> n" by linarith
  then show ?thesis
  proof cases
    case 1
    then have dn: "decn n = [digits ! n]" and m: "n mod 10 = n" and len: "length (decn n) = 0 + 1"
      by (simp_all add: decn_def)
    have "parseIPv4Fields_loop prev (digits ! n # rest) 0 pos 0 fs =
          parseIPv4Fields_loop (Some (digits ! n)) rest (0 * 10 + n) pos (0 + 1) fs"
      by (rule loop_digit_step) (use 1 in simp_all)
    then show ?thesis by (simp add: dn m del: parseIPv4Fields_loop.simps)
  next
    case 2
    then have dn: "decn n = [digits ! (n div 10), digits ! (n mod 10)]" by (simp add: decn_def)
    have len: "length (decn n) = 0 + 1 + 1" by (simp add: dn)
    have "parseIPv4Fields_loop prev (decn n @ rest) 0 pos 0 fs =
          parseIPv4Fields_loop prev (digits ! (n div 10) # digits ! (n mod 10) # rest) 0 pos 0 fs"
      by (simp only: dn append_Cons append_Nil)
    also have "\<dots> = parseIPv4Fields_loop (Some (digits ! (n div 10))) (digits ! (n mod 10) # rest)
                       (0 * 10 + n div 10) pos (0 + 1) fs"
      by (rule loop_digit_step) (use 2 in simp_all)
    also have "\<dots> = parseIPv4Fields_loop (Some (digits ! (n mod 10))) rest
                       ((0 * 10 + n div 10) * 10 + n mod 10) pos (0 + 1 + 1) fs"
      by (rule loop_digit_step) (use 2 assms in simp_all)
    also have "(0 * 10 + n div 10) * 10 + n mod 10 = n" using e2 by simp
    finally show ?thesis by (simp only: len)
  next
    case 3
    then have dn: "decn n = [digits ! (n div 100), digits ! (n div 10 mod 10), digits ! (n mod 10)]"
      by (simp add: decn_def)
    have len: "length (decn n) = 0 + 1 + 1 + 1" by (simp add: dn)
    have nz: "n div 100 \<noteq> 0" using 3 by simp
    have "parseIPv4Fields_loop prev (decn n @ rest) 0 pos 0 fs =
          parseIPv4Fields_loop prev (digits ! (n div 100) # digits ! (n div 10 mod 10) # digits ! (n mod 10) # rest) 0 pos 0 fs"
      by (simp only: dn append_Cons append_Nil)
    also have "\<dots> = parseIPv4Fields_loop (Some (digits ! (n div 100)))
                       (digits ! (n div 10 mod 10) # digits ! (n mod 10) # rest)
                       (0 * 10 + n div 100) pos (0 + 1) fs"
      by (rule loop_digit_step) (use d2 in simp_all)
    also have "\<dots> = parseIPv4Fields_loop (Some (digits ! (n div 10 mod 10))) (digits ! (n mod 10) # rest)
                       ((0 * 10 + n div 100) * 10 + n div 10 mod 10) pos (0 + 1 + 1) fs"
      by (rule loop_digit_step) (use nz d0 e1 assms in simp_all)
    also have "(0 * 10 + n div 100) * 10 + n div 10 mod 10 = n div 10" using e1 by simp
    also have "parseIPv4Fields_loop (Some (digits ! (n div 10 mod 10))) (digits ! (n mod 10) # rest)
                       (n div 10) pos (0 + 1 + 1) fs =
               parseIPv4Fields_loop (Some (digits ! (n mod 10))) rest
                       (n div 10 * 10 + n mod 10) pos (0 + 1 + 1 + 1) fs"
      by (rule loop_digit_step) (use d0 e2 assms in simp_all)
    also have "n div 10 * 10 + n mod 10 = n" by (rule e2)
    finally show ?thesis by (simp only: len)
  qed
qed

lemma dot_not_digit: "\<not> (CHR ''0'' \<le> CHR ''.'' \<and> CHR ''.'' \<le> CHR ''9'')"
  by (simp add: less_eq_char_def)

lemma loop_dot_step:
  assumes "c \<noteq> CHR ''.''" "rest \<noteq> []" "pos \<noteq> 3"
  shows "parseIPv4Fields_loop (Some c) (CHR ''.'' # rest) val pos digLen fs =
         parseIPv4Fields_loop (Some CHR ''.'') rest 0 (pos + 1) 0 (fs[pos := of_nat val])"
  using assms dot_not_digit by simp

lemma loop_field_dot:
  assumes "n \<le> 255" "rest \<noteq> []" "pos \<noteq> 3"
  shows "parseIPv4Fields_loop prev (decn n @ CHR ''.'' # rest) 0 pos 0 fs =
         parseIPv4Fields_loop (Some CHR ''.'') rest 0 (pos + 1) 0 (fs[pos := of_nat n])"
proof -
  have "digits ! (n mod 10) \<noteq> CHR ''.''" by (rule digit_not_dot) simp
  then show ?thesis
    using loop_decn [OF assms(1), of prev "CHR ''.'' # rest" pos fs]
      loop_dot_step [of "digits ! (n mod 10)" rest pos n "length (decn n)" fs] assms
    by (simp del: parseIPv4Fields_loop.simps)
qed

lemma loop_field_end:
  assumes "n \<le> 255"
  shows "parseIPv4Fields_loop prev (decn n) 0 3 0 fs = Inr (fs[3 := of_nat n])"
  using loop_decn [OF assms, of prev "[]" 3 fs] by simp

lemma unat_byte_le: "unat (x :: byte) \<le> 255"
proof -
  have "unat x < 2 ^ LENGTH(8)" by (rule unsigned_less)
  then show ?thesis by simp
qed

lemma parseIPv4Fields_string4:
  "parseIPv4Fields (string4 [a, b, c, d]) = Inr [a, b, c, d]"
proof -
  have three: "0 + 1 + 1 + 1 = (3::nat)" by simp
  have "parseIPv4Fields (string4 [a, b, c, d]) =
        parseIPv4Fields_loop None
          (decn (unat a) @ CHR ''.'' # (decn (unat b) @ CHR ''.'' # (decn (unat c) @ CHR ''.'' # decn (unat d))))
          0 0 0 [0, 0, 0, 0]"
    by (simp add: parseIPv4Fields_def string4_decn del: parseIPv4Fields_loop.simps)
  also have "\<dots> = parseIPv4Fields_loop (Some CHR ''.'')
          (decn (unat b) @ CHR ''.'' # (decn (unat c) @ CHR ''.'' # decn (unat d)))
          0 (0 + 1) 0 ([0, 0, 0, 0][0 := of_nat (unat a)])"
    by (rule loop_field_dot) (simp_all add: unat_byte_le decn_not_Nil)
  also have "\<dots> = parseIPv4Fields_loop (Some CHR ''.'')
          (decn (unat c) @ CHR ''.'' # decn (unat d))
          0 (0 + 1 + 1) 0 ([0, 0, 0, 0][0 := of_nat (unat a), 0 + 1 := of_nat (unat b)])"
    by (rule loop_field_dot) (simp_all add: unat_byte_le decn_not_Nil)
  also have "\<dots> = parseIPv4Fields_loop (Some CHR ''.'')
          (decn (unat d))
          0 (0 + 1 + 1 + 1) 0
          ([0, 0, 0, 0][0 := of_nat (unat a), 0 + 1 := of_nat (unat b), 0 + 1 + 1 := of_nat (unat c)])"
    by (rule loop_field_dot) (simp_all add: unat_byte_le decn_not_Nil)
  also have "\<dots> = parseIPv4Fields_loop (Some CHR ''.'') (decn (unat d)) 0 3 0
          ([0, 0, 0, 0][0 := of_nat (unat a), 0 + 1 := of_nat (unat b), 0 + 1 + 1 := of_nat (unat c)])"
    by (simp only: three)
  also have "\<dots> = Inr ([0, 0, 0, 0][0 := of_nat (unat a), 0 + 1 := of_nat (unat b),
                      0 + 1 + 1 := of_nat (unat c), 3 := of_nat (unat d)])"
    by (rule loop_field_end) (rule unat_byte_le)
  also have "\<dots> = Inr [a, b, c, d]"
    by (simp add: numeral_eq_Suc)
  finally show ?thesis .
qed

lemma fields_prefix_0: "fields_prefix fs 0 = []"
  by (simp add: fields_prefix_def)

lemma fields_prefix_Suc:
  "pos < length fs \<Longrightarrow>
   fields_prefix (fs[pos := x]) (Suc pos) = fields_prefix fs pos @ decn (unat x) @ ''.''"
  by (simp add: fields_prefix_def take_Suc_conv_app_nth)

lemma fields_prefix_update: "pos \<le> k \<Longrightarrow> fields_prefix (fs[k := x]) pos = fields_prefix fs pos"
  by (simp add: fields_prefix_def)

lemma fields_prefix_last:
  "0 < pos \<Longrightarrow> pos \<le> length fs \<Longrightarrow>
   fields_prefix fs pos \<noteq> [] \<and> last (fields_prefix fs pos) = CHR ''.''"
proof -
  assume "0 < pos" "pos \<le> length fs"
  then obtain k where k: "pos = Suc k" "k < length fs" by (cases pos) auto
  then have "fields_prefix fs pos = fields_prefix fs k @ decn (unat (fs ! k)) @ ''.''"
    by (simp add: fields_prefix_def take_Suc_conv_app_nth)
  then show ?thesis by simp
qed

lemma unat_of_nat_byte: "v \<le> 255 \<Longrightarrow> unat (of_nat v :: byte) = v"
  by (simp add: unat_of_nat)

lemma decn_length_1: "length (decn v) = 1 \<Longrightarrow> v < 10"
  by (simp add: length_decn split: if_splits)

lemma loop_sound:
  "parseIPv4Fields_loop prev rest val pos digLen fs = Inr out \<Longrightarrow>
   length fs = 4 \<Longrightarrow> pos \<le> 3 \<Longrightarrow> val \<le> 255 \<Longrightarrow>
   prev = (if pre = [] then None else Some (last pre)) \<Longrightarrow>
   pre = fields_prefix fs pos @ (if digLen = 0 then [] else decn val) \<Longrightarrow>
   (digLen = 0 \<longrightarrow> val = 0) \<Longrightarrow>
   (0 < digLen \<longrightarrow> digLen = length (decn val)) \<Longrightarrow>
   (digLen = 0 \<longrightarrow> pos < 3 \<or> rest \<noteq> []) \<Longrightarrow>
   length out = 4 \<and> pre @ rest = fields_prefix out 3 @ decn (unat (out ! 3))"
proof (induction rest arbitrary: prev val pos digLen fs pre)
  case Nil
  from Nil.prems(1) have p3: "pos = 3" and out: "out = fs[3 := of_nat val]"
    using Nil.prems(3) by (auto split: if_splits)
  have dl: "0 < digLen" using Nil.prems(9) p3 by auto
  have "fields_prefix out 3 = fields_prefix fs 3"
    unfolding out by (rule fields_prefix_update) simp
  moreover have "out ! 3 = of_nat val" using Nil.prems(2) by (simp add: out)
  ultimately show ?case
    using Nil.prems(2,4,6) dl p3 by (simp add: out unat_of_nat_byte)
next
  case (Cons c rest)
  show ?case
  proof (cases "CHR ''0'' \<le> c \<and> c \<le> CHR ''9''")
    case True
    define d :: nat where "d = of_char c - of_char CHR ''0''"
    have d: "d < 10" "c = digits ! d"
      using is_digit_char [of c] True by (simp_all add: d_def)
    have nlz: "\<not> (digLen = 1 \<and> val = 0)" and le: "val * 10 + d \<le> 255"
      and rec: "parseIPv4Fields_loop (Some c) rest (val * 10 + d) pos (digLen + 1) fs = Inr out"
      using Cons.prems(1) True by (auto simp: Let_def d_def split: if_splits)
    have cur: "(if digLen = 0 then [] else decn val) @ [c] = decn (val * 10 + d)"
    proof (cases "digLen = 0")
      case True
      then show ?thesis using Cons.prems(7) d by (simp add: decn_digit)
    next
      case False
      then have "digLen = length (decn val)" using Cons.prems(8) by simp
      then have "1 \<le> val" using nlz by (cases "val = 0") (simp_all add: length_decn)
      then show ?thesis using False d le by (simp add: decn_snoc)
    qed
    have len: "digLen + 1 = length (decn (val * 10 + d))"
    proof (cases "digLen = 0")
      case True
      then show ?thesis using Cons.prems(7) d by (simp add: decn_digit)
    next
      case False
      then show ?thesis using cur [symmetric] Cons.prems(8) by simp
    qed
    have "length out = 4 \<and> (pre @ [c]) @ rest = fields_prefix out 3 @ decn (unat (out ! 3))"
    proof (rule Cons.IH [OF rec Cons.prems(2) Cons.prems(3) le])
      show "Some c = (if pre @ [c] = [] then None else Some (last (pre @ [c])))" by simp
      show "pre @ [c] = fields_prefix fs pos @ (if digLen + 1 = 0 then [] else decn (val * 10 + d))"
        using Cons.prems(6) cur by simp
      show "digLen + 1 = 0 \<longrightarrow> val * 10 + d = 0" by simp
      show "0 < digLen + 1 \<longrightarrow> digLen + 1 = length (decn (val * 10 + d))" using len by simp
      show "digLen + 1 = 0 \<longrightarrow> pos < 3 \<or> rest \<noteq> []" by simp
    qed
    then show ?thesis by simp
  next
    case False
    then have cdot: "c = CHR ''.''" and pr: "prev \<noteq> None" "prev \<noteq> Some CHR ''.''"
      and rne: "rest \<noteq> []" and p3: "pos \<noteq> 3"
      and rec: "parseIPv4Fields_loop (Some c) rest 0 (pos + 1) 0 (fs[pos := of_nat val]) = Inr out"
      using Cons.prems(1) by (auto split: if_splits)
    have pos: "pos < 3" using p3 Cons.prems(3) by simp
    have dl: "0 < digLen"
    proof (rule ccontr)
      assume "\<not> 0 < digLen"
      then have pre: "pre = fields_prefix fs pos" using Cons.prems(6) by simp
      show False
      proof (cases "pos = 0")
        case True
        then show ?thesis using pre pr(1) Cons.prems(5) by (simp add: fields_prefix_0)
      next
        case False
        then have "pre \<noteq> [] \<and> last pre = CHR ''.''"
          using fields_prefix_last [of pos fs] pos Cons.prems(2) pre by simp
        then show ?thesis using pr(2) Cons.prems(5) by simp
      qed
    qed
    have "length out = 4 \<and> (pre @ [c]) @ rest = fields_prefix out 3 @ decn (unat (out ! 3))"
    proof (rule Cons.IH [OF rec])
      show "length (fs[pos := of_nat val]) = 4" using Cons.prems(2) by simp
      show "pos + 1 \<le> 3" using pos by simp
      show "(0::nat) \<le> 255" by simp
      show "Some c = (if pre @ [c] = [] then None else Some (last (pre @ [c])))" by simp
      show "pre @ [c] = fields_prefix (fs[pos := of_nat val]) (pos + 1) @ (if (0::nat) = 0 then [] else decn 0)"
        using Cons.prems(2,4,6) pos dl cdot by (simp add: fields_prefix_Suc unat_of_nat_byte)
      show "(0::nat) = 0 \<longrightarrow> (0::nat) = 0" by simp
      show "0 < (0::nat) \<longrightarrow> (0::nat) = length (decn 0)" by simp
      show "(0::nat) = 0 \<longrightarrow> pos + 1 < 3 \<or> rest \<noteq> []" using rne by simp
    qed
    then show ?thesis by simp
  qed
qed

lemma length_4_cases: "length xs = 4 \<Longrightarrow> \<exists>a b c d. xs = [a, b, c, d]"
  by (auto simp: length_Suc_conv numeral_eq_Suc)

lemma string4_fields_prefix:
  assumes "length out = 4"
  shows "string4 out = fields_prefix out 3 @ decn (unat (out ! 3))"
proof -
  obtain a b c d where "out = [a, b, c, d]" using length_4_cases [OF assms] by blast
  then show ?thesis by (simp add: string4_decn fields_prefix_def numeral_eq_Suc)
qed

lemma parseIPv4Fields_iff:
  "parseIPv4Fields s = Inr out \<longleftrightarrow> length out = 4 \<and> s = string4 out"
proof
  assume p: "parseIPv4Fields s = Inr out"
  have "length out = 4 \<and> [] @ s = fields_prefix out 3 @ decn (unat (out ! 3))"
    by (rule loop_sound [OF p [unfolded parseIPv4Fields_def]]) (simp_all add: fields_prefix_0)
  then show "length out = 4 \<and> s = string4 out" by (simp add: string4_fields_prefix)
next
  assume a: "length out = 4 \<and> s = string4 out"
  then obtain a b c d where "out = [a, b, c, d]" using length_4_cases by blast
  then show "parseIPv4Fields s = Inr out" using a by (simp add: parseIPv4Fields_string4)
qed

section \<open>parseIPv6 returns 16 bytes\<close>

text \<open>
  A pass through the body of the loop that reaches its end has added 2 to \<open>i\<close>, so the
  test \<open>i < i'\<close> in \<open>parseIPv6_loop\<close> always holds there.
\<close>

lemma parseIPv6_body_Continue:
  "parseIPv6_body s i ip e = Inr (Continue (s', i', ip', e')) \<Longrightarrow> i' = i + 2"
  by (auto simp: parseIPv6_body_def Let_def split: sum.splits prod.splits if_splits)


lemma parseIPv4_Inr_fields:
  "parseIPv4 s = Inr addr \<longleftrightarrow> (\<exists>f. addr = Addr4 f \<and> parseIPv4Fields s = Inr f)"
  by (auto simp: parseIPv4_def split: sum.splits)

lemma parseIPv4_Inr: "parseIPv4 s = Inr addr \<longleftrightarrow> (\<exists>f. addr = Addr4 f \<and> length f = 4 \<and> s = string4 f)"
  by (simp only: parseIPv4_Inr_fields parseIPv4Fields_iff)

lemma parseIPv6_body_length:
  assumes "parseIPv6_body s i ip e = Inr it" "length ip = 16"
    and "it = Break (s', i', ip', e') \<or> it = Continue (s', i', ip', e')"
  shows "length ip' = 16"
proof -
  have f: "\<And>fs. parseIPv4Fields s = Inr fs \<Longrightarrow> length fs = 4"
    by (simp add: parseIPv4Fields_iff)
  show ?thesis
    using assms f
    by (auto simp: parseIPv6_body_def Let_def split: sum.splits prod.splits if_splits)
qed

lemma parseIPv6_loop_length:
  "parseIPv6_loop s i ip e = Inr (s', i', ip', e') \<Longrightarrow> length ip = 16 \<Longrightarrow> length ip' = 16"
proof (induction s i ip e rule: parseIPv6_loop.induct)
  case (1 s i ip ellipsis)
  show ?case
  proof (cases "i < 16")
    case False
    then show ?thesis using "1.prems" by (simp add: parseIPv6_loop.simps)
  next
    case True
    show ?thesis
    proof (cases "parseIPv6_body s i ip ellipsis")
      case (Inl err)
      then show ?thesis using "1.prems" True by (simp add: parseIPv6_loop.simps)
    next
      case (Inr it)
      show ?thesis
      proof (cases it)
        case (Break st)
        then have "st = (s', i', ip', e')"
          using "1.prems" True Inr by (simp add: parseIPv6_loop.simps)
        then show ?thesis
          using parseIPv6_body_length [OF Inr "1.prems"(2), of s' i' ip' e'] Break by simp
      next
        case (Continue st)
        obtain s1 i1 ip1 e1 where st: "st = (s1, i1, ip1, e1)" by (cases st)
        have l1: "length ip1 = 16"
          using parseIPv6_body_length [OF Inr "1.prems"(2), of s1 i1 ip1 e1] Continue st by simp
        show ?thesis
        proof (cases "i < i1")
          case lt: True
          have "parseIPv6_loop s1 i1 ip1 e1 = Inr (s', i', ip', e')"
            using "1.prems"(1) True Inr Continue st lt by (simp add: parseIPv6_loop.simps)
          then show ?thesis
            using "1.IH" [OF _ Inr Continue st [symmetric] _ _ lt] True l1 by simp
        next
          case ge: False
          then have "ip' = ip1"
            using "1.prems"(1) True Inr Continue st by (simp add: parseIPv6_loop.simps)
          then show ?thesis using l1 by simp
        qed
      qed
    qed
  qed
qed

lemma length_foldl_update:
  "length (foldl (\<lambda>a j. a[f j := g a j]) ip js) = length ip"
  by (induction js arbitrary: ip) simp_all

lemma expand_ellipsis_length: "length (expand_ellipsis ip e i) = length ip"
  by (simp add: expand_ellipsis_def Let_def length_foldl_update)

lemma parseIPv6_Inr:
  assumes "parseIPv6 s = Inr addr"
  shows "\<exists>b z. addr = Addr6 b z \<and> length b = 16"
  using assms parseIPv6_loop_length
  by (auto simp: parseIPv6_def Let_def expand_ellipsis_length
      split: sum.splits prod.splits if_splits option.splits)

section \<open>What validateIp accepts\<close>

lemma ParseAddr_scan_Addr4:
  "ParseAddr_scan s cs = Inr (Addr4 f) \<Longrightarrow> parseIPv4 s = Inr (Addr4 f)"
proof (induction cs)
  case Nil
  then show ?case by simp
next
  case (Cons c cs)
  then show ?case using parseIPv6_Inr [of s "Addr4 f"] by (auto split: if_splits)
qed

lemma ParseAddr_scan_Addr6:
  "ParseAddr_scan s cs = Inr (Addr6 b z) \<Longrightarrow> parseIPv6 s = Inr (Addr6 b z)"
proof (induction cs)
  case Nil
  then show ?case by simp
next
  case (Cons c cs)
  then show ?case using parseIPv4_Inr [of s "Addr6 b z"] by (auto split: if_splits)
qed

lemma ParseAddr_scan_digits:
  "\<forall>c \<in> set ds. CHR ''0'' \<le> c \<and> c \<le> CHR ''9'' \<Longrightarrow>
   ParseAddr_scan s (ds @ CHR ''.'' # rest) = parseIPv4 s"
proof (induction ds)
  case Nil
  then show ?case by simp
next
  case (Cons c ds)
  then have "CHR ''0'' \<le> c \<and> c \<le> CHR ''9''" by simp
  then have "c \<noteq> CHR ''.'' \<and> c \<noteq> CHR '':'' \<and> c \<noteq> CHR ''%''"
    by (auto simp: less_eq_char_def)
  then show ?case using Cons by simp
qed

lemma decn_digits: "n \<le> 255 \<Longrightarrow> \<forall>c \<in> set (decn n). CHR ''0'' \<le> c \<and> c \<le> CHR ''9''"
proof -
  assume "n \<le> 255"
  then have "n div 100 < 10" "n div 10 mod 10 < 10" "n mod 10 < 10" by simp_all
  then show ?thesis using digit_is_digit by (auto simp: decn_def)
qed

lemma ParseAddr_string4:
  assumes "length f = 4"
  shows "ParseAddr (string4 f) = Inr (Addr4 f)"
proof -
  obtain a b c d where f: "f = [a, b, c, d]" using length_4_cases [OF assms] by blast
  have "string4 f = decn (unat a) @ CHR ''.'' # (decn (unat b) @ ''.'' @ decn (unat c) @ ''.'' @ decn (unat d))"
    by (simp add: f string4_decn)
  then have "ParseAddr (string4 f) = parseIPv4 (string4 f)"
    using ParseAddr_scan_digits [OF decn_digits [OF unat_byte_le [of a]], of "string4 f"]
    by (simp add: ParseAddr_def)
  then show ?thesis using assms by (simp add: parseIPv4_Inr)
qed

lemma To4_mapped: "length ip = 4 \<Longrightarrow> To4 (v4InV6Prefix @ ip) = ip"
  by (simp add: To4_def v4InV6Prefix_def isZeros_def)

lemma length_12_cases:
  "length xs = 12 \<Longrightarrow> \<exists>a b c d e f g h i j k l. xs = [a, b, c, d, e, f, g, h, i, j, k, l]"
  by (auto simp: length_Suc_conv numeral_eq_Suc)

lemma To4_16:
  assumes "length b = 16" "To4 b = ip" "ip \<noteq> []"
  shows "b = v4InV6Prefix @ ip \<and> length ip = 4"
proof -
  have c: "isZeros (take 10 b)" "b ! 10 = 0xff" "b ! 11 = 0xff" and ip: "ip = drop 12 b"
    using assms by (auto simp: To4_def split: if_splits)
  have "length (take 12 b) = 12" using assms(1) by simp
  then obtain x0 x1 x2 x3 x4 x5 x6 x7 x8 x9 x10 x11
    where t: "take 12 b = [x0, x1, x2, x3, x4, x5, x6, x7, x8, x9, x10, x11]"
    using length_12_cases [of "take 12 b"] by auto
  have b: "b = [x0, x1, x2, x3, x4, x5, x6, x7, x8, x9, x10, x11] @ ip"
    using append_take_drop_id [of 12 b] t ip by simp
  have "take 10 b = [x0, x1, x2, x3, x4, x5, x6, x7, x8, x9]"
    by (subst b) simp
  then have z: "x0 = 0 \<and> x1 = 0 \<and> x2 = 0 \<and> x3 = 0 \<and> x4 = 0 \<and> x5 = 0 \<and> x6 = 0 \<and> x7 = 0 \<and>
      x8 = 0 \<and> x9 = 0"
    using c(1) by (simp add: isZeros_def)
  have "b ! 10 = x10" "b ! 11 = x11" by (subst b, simp)+
  then have "x10 = 0xff" "x11 = 0xff" using c by simp_all
  then show ?thesis using b z ip assms(1) by (simp add: v4InV6Prefix_def)
qed

lemma ParseIP_cases:
  "ParseIP s = [] \<or> (\<exists>f. length f = 4 \<and> s = string4 f \<and> ParseIP s = v4InV6Prefix @ f)
   \<or> (\<exists>b. length b = 16 \<and> ParseAddr s = Inr (Addr6 b []) \<and> ParseIP s = b)"
proof (cases "ParseAddr s")
  case (Inl err)
  then show ?thesis by (simp add: ParseIP_def)
next
  case (Inr addr)
  show ?thesis
  proof (cases addr)
    case (Addr4 f)
    then have "parseIPv4 s = Inr (Addr4 f)"
      using Inr ParseAddr_scan_Addr4 by (simp add: ParseAddr_def)
    then have "length f = 4 \<and> s = string4 f" by (simp add: parseIPv4_Inr)
    then show ?thesis using Inr Addr4 by (simp add: ParseIP_def)
  next
    case (Addr6 b z)
    then have "parseIPv6 s = Inr (Addr6 b z)"
      using Inr ParseAddr_scan_Addr6 by (simp add: ParseAddr_def)
    then have "length b = 16" using parseIPv6_Inr by fastforce
    then show ?thesis using Inr Addr6 by (cases "z = []") (simp_all add: ParseIP_def)
  qed
qed

lemma validateIp_Inr: "validateIp r = Inr ip \<longleftrightarrow> To4 (ParseIP (IP r)) = ip \<and> ip \<noteq> []"
  by (auto simp: validateIp_def Let_def)

lemma validateIp_iff:
  "validateIp r = Inr ip \<longleftrightarrow>
     length ip = 4 \<and>
     (IP r = string4 ip \<or> ParseAddr (IP r) = Inr (Addr6 (v4InV6Prefix @ ip) []))"
proof
  assume "validateIp r = Inr ip"
  then have t: "To4 (ParseIP (IP r)) = ip" and ne: "ip \<noteq> []" by (simp_all add: validateIp_Inr)
  from ParseIP_cases [of "IP r"] show "length ip = 4 \<and>
     (IP r = string4 ip \<or> ParseAddr (IP r) = Inr (Addr6 (v4InV6Prefix @ ip) []))"
  proof (elim disjE exE conjE)
    assume "ParseIP (IP r) = []"
    then show ?thesis using t ne by (simp add: To4_def)
  next
    fix f assume "length f = 4" "IP r = string4 f" "ParseIP (IP r) = v4InV6Prefix @ f"
    then show ?thesis using t by (simp add: To4_mapped)
  next
    fix b assume b: "length b = 16" "ParseAddr (IP r) = Inr (Addr6 b [])" "ParseIP (IP r) = b"
    then have "b = v4InV6Prefix @ ip \<and> length ip = 4" using To4_16 [of b ip] t ne by simp
    then show ?thesis using b by simp
  qed
next
  assume a: "length ip = 4 \<and>
     (IP r = string4 ip \<or> ParseAddr (IP r) = Inr (Addr6 (v4InV6Prefix @ ip) []))"
  then have ne: "ip \<noteq> []" by auto
  from a have "ParseIP (IP r) = v4InV6Prefix @ ip"
    using ParseAddr_string4 [of ip] by (auto simp: ParseIP_def)
  then show "validateIp r = Inr ip" using a ne by (simp add: validateIp_Inr To4_mapped)
qed

section \<open>Traces of the update functions\<close>

lemma remote_calls_append: "remote_calls (a @ b) = remote_calls a @ remote_calls b"
  by (induction a rule: remote_calls.induct) simp_all

lemma notifications_append: "notifications (a @ b) = notifications a @ notifications b"
  by (induction a rule: notifications.induct) simp_all

lemma messages_sent_append: "messages_sent (a @ b) = messages_sent a @ messages_sent b"
  by (induction a rule: messages_sent.induct) simp_all

lemma UpdateRoute53Record_dry_run:
  "UpdateRoute53Record w client hc h ip False tr =
     (None, tr @ [Log DebugLevel [LogInput (MakeChangeRequest (Now w tr) (ZoneId hc) h ip (Ttl hc))] []])"
  by (simp add: UpdateRoute53Record_def Let_def)

lemma UpdateRoute53Record_error_commit:
  "fst (UpdateRoute53Record w client hc h ip commit tr) \<noteq> None \<Longrightarrow> commit"
  by (cases commit) (simp_all add: UpdateRoute53Record_dry_run)


lemma UpdateRoute53Record_calls:
  "UpdateRoute53Record w client hc h ip commit tr = (err, tr') \<Longrightarrow>
   remote_calls tr' = remote_calls tr @
     (if commit then [(MakeChangeRequest (Now w tr) (ZoneId hc) h ip (Ttl hc), err)] else [])"
  by (auto simp: UpdateRoute53Record_def Let_def remote_calls_append split: prod.splits option.splits if_splits)

lemma UpdateRoute53Record_notifications:
  "UpdateRoute53Record w client hc h ip commit tr = (err, tr') \<Longrightarrow>
   notifications tr' = notifications tr \<and> messages_sent tr' = messages_sent tr"
  by (auto simp: UpdateRoute53Record_def Let_def notifications_append messages_sent_append split: prod.splits option.splits if_splits)

lemma NotifyPushover_calls:
  "remote_calls (NotifyPushover w config host err tr) = remote_calls tr"
  by (auto simp: NotifyPushover_def Let_def remote_calls_append split: prod.splits option.splits)

lemma NotifyPushover_notifications:
  "notifications (NotifyPushover w config host err tr) = notifications tr @ [(host, err)]"
  by (auto simp: NotifyPushover_def Let_def notifications_append split: prod.splits option.splits)

lemma NotifyPushover_messages:
  "messages_sent (NotifyPushover w config host err tr) = messages_sent tr @
     (if ApiToken config = [] \<or> RecipientKey config = [] then []
      else [(if err \<noteq> None then ''Error: IP Update Failed for: '' @ host else ''IP Updated for: '' @ host)])"
  by (auto simp: NotifyPushover_def Let_def messages_sent_append split: prod.splits option.splits)


lemma fanout_trace:
  "\<exists>nows errs. length nows = length hosts \<and> length errs = length hosts \<and>
     remote_calls (ProcessIpChange_additional w client cfg hc ip True hosts tr) =
       remote_calls tr @ fanout_calls (ZoneId hc) (Ttl hc) ip hosts nows errs \<and>
     notifications (ProcessIpChange_additional w client cfg hc ip True hosts tr) =
       notifications tr @ failure_notifications hosts errs"
proof (induction hosts arbitrary: tr)
  case Nil
  then show ?case by simp
next
  case (Cons h hosts)
  obtain err tr1 where u: "UpdateRoute53Record w client hc h ip True tr = (err, tr1)"
    by (cases "UpdateRoute53Record w client hc h ip True tr")
  define tr2 where "tr2 = (if err \<noteq> None then NotifyPushover w (Pushover cfg) h err tr1 else tr1)"
  have step: "ProcessIpChange_additional w client cfg hc ip True (h # hosts) tr =
                ProcessIpChange_additional w client cfg hc ip True hosts tr2"
    by (simp add: u tr2_def)
  have c2: "remote_calls tr2 = remote_calls tr @ [(MakeChangeRequest (Now w tr) (ZoneId hc) h ip (Ttl hc), err)]"
    using UpdateRoute53Record_calls [OF u] by (simp add: tr2_def NotifyPushover_calls)
  have n2: "notifications tr2 = notifications tr @ failure_notifications [h] [err]"
    using UpdateRoute53Record_notifications [OF u]
    by (cases err) (simp_all add: tr2_def NotifyPushover_notifications)
  from Cons.IH [of tr2] obtain nows errs where
    l: "length nows = length hosts" "length errs = length hosts" and
    c: "remote_calls (ProcessIpChange_additional w client cfg hc ip True hosts tr2) =
          remote_calls tr2 @ fanout_calls (ZoneId hc) (Ttl hc) ip hosts nows errs" and
    n: "notifications (ProcessIpChange_additional w client cfg hc ip True hosts tr2) =
          notifications tr2 @ failure_notifications hosts errs"
    by blast
  have "length (Now w tr # nows) = length (h # hosts) \<and> length (err # errs) = length (h # hosts) \<and>
     remote_calls (ProcessIpChange_additional w client cfg hc ip True (h # hosts) tr) =
       remote_calls tr @ fanout_calls (ZoneId hc) (Ttl hc) ip (h # hosts) (Now w tr # nows) (err # errs) \<and>
     notifications (ProcessIpChange_additional w client cfg hc ip True (h # hosts) tr) =
       notifications tr @ failure_notifications (h # hosts) (err # errs)"
    unfolding step using l c n c2 n2 by (cases err) simp_all
  then show ?case by blast
qed


lemma ProcessIpChange_configured:
  assumes "validateIp request = Inr ip"
    and "Records appConfig (Host request) = Some hostConfig"
    and "UpdateRoute53Record w client hostConfig (Host request) ip (Commit request) tr = (err, tr1)"
  shows "ProcessIpChange w client appConfig request tr =
     (if err \<noteq> None then
        ProcessIpChange_additional w client appConfig hostConfig ip (Commit request)
          (AdditionalHosts hostConfig) (NotifyPushover w (Pushover appConfig) (Host request) err tr1)
      else NotifyPushover w (Pushover appConfig) (Host request) err tr1)"
  using assms by (simp add: ProcessIpChange_def getHostname_def)

lemma ProcessIpChange_success:
  assumes "validateIp request = Inr ip"
    and "Records appConfig (Host request) = Some hostConfig"
    and "UpdateRoute53Record w client hostConfig (Host request) ip (Commit request) tr = (None, tr1)"
  shows "ProcessIpChange w client appConfig request tr =
           NotifyPushover w (Pushover appConfig) (Host request) None tr1"
  using ProcessIpChange_configured [OF assms] by simp

lemma ProcessIpChange_failure:
  assumes "validateIp request = Inr ip"
    and "Records appConfig (Host request) = Some hostConfig"
    and "UpdateRoute53Record w client hostConfig (Host request) ip (Commit request) tr = (Some e, tr1)"
  shows "ProcessIpChange w client appConfig request tr =
           ProcessIpChange_additional w client appConfig hostConfig ip True
             (AdditionalHosts hostConfig) (NotifyPushover w (Pushover appConfig) (Host request) (Some e) tr1)"
proof -
  have "Commit request"
    using UpdateRoute53Record_error_commit [of w client hostConfig "Host request" ip "Commit request" tr]
      assms(3) by simp
  then show ?thesis using ProcessIpChange_configured [OF assms] by simp
qed

section \<open>Evaluating the parsers on the examples\<close>

lemma list_update_Cons_numeral: "(x # xs)[numeral k := v] = x # xs[pred_numeral k := v]"
  by (simp add: numeral_eq_Suc)

lemma replicate_16: "replicate 16 x = [x, x, x, x, x, x, x, x, x, x, x, x, x, x, x, x]"
  by (simp add: numeral_eq_Suc)

lemma string4_example: "string4 [203, 0, 113, 5] = ''203.0.113.5''"
  by (simp add: string4_def appendDecimal_def digits_def)

lemma validateIp_example: "validateIp (example_request commit) = Inr [203, 0, 113, 5]"
  by (simp add: validateIp_iff example_request_def string4_example)

lemma Records_example: "Records example_config (Host (example_request commit)) = Some example_host"
  by (simp add: example_config_def example_request_def)

lemma parseIPv6_body_mapped_1:
  "parseIPv6_body ''ffff:1.2.3.4'' 0 (replicate 16 0) (Some 0) =
     Inr (Continue (''1.2.3.4'', 2, [255, 255, 0, 0, 0, 0, 0, 0, 0, 0, 0, 0, 0, 0, 0, 0], Some 0))"
  by (simp add: parseIPv6_body_def hexval_def Let_def list_update_Cons_numeral replicate_16)

lemma parseIPv6_body_mapped_2:
  "parseIPv6_body ''1.2.3.4'' 2 [255, 255, 0, 0, 0, 0, 0, 0, 0, 0, 0, 0, 0, 0, 0, 0] (Some 0) =
     Inr (Break ([], 6, [255, 255, 1, 2, 3, 4, 0, 0, 0, 0, 0, 0, 0, 0, 0, 0], Some 0))"
  by (simp add: parseIPv6_body_def hexval_def parseIPv4Fields_def Let_def list_update_Cons_numeral)

lemma parseIPv6_loop_mapped:
  "parseIPv6_loop ''ffff:1.2.3.4'' 0 (replicate 16 0) (Some 0) =
     Inr ([], 6, [255, 255, 1, 2, 3, 4, 0, 0, 0, 0, 0, 0, 0, 0, 0, 0], Some 0)"
  by (simp add: parseIPv6_loop.simps parseIPv6_body_mapped_1 parseIPv6_body_mapped_2)

lemma expand_ellipsis_mapped:
  "expand_ellipsis [255, 255, 1, 2, 3, 4, 0, 0, 0, 0, 0, 0, 0, 0, 0, 0] 0 6 =
     [0, 0, 0, 0, 0, 0, 0, 0, 0, 0, 255, 255, 1, 2, 3, 4]"
  by (simp add: expand_ellipsis_def Let_def upt_rec list_update_Cons_numeral)

lemma parseIPv6_mapped:
  "parseIPv6 ''::ffff:1.2.3.4'' = Inr (Addr6 [0, 0, 0, 0, 0, 0, 0, 0, 0, 0, 255, 255, 1, 2, 3, 4] [])"
  by (simp add: parseIPv6_def Let_def parseIPv6_loop_mapped expand_ellipsis_mapped)

lemma ParseAddr_mapped:
  "ParseAddr ''::ffff:1.2.3.4'' = Inr (Addr6 [0, 0, 0, 0, 0, 0, 0, 0, 0, 0, 255, 255, 1, 2, 3, 4] [])"
  by (simp add: ParseAddr_def parseIPv6_mapped)

lemma parseIPv4_mapped: "parseIPv4 ''::ffff:1.2.3.4'' = Inl (ParseAddrError ''unexpected character'')"
  by (simp add: parseIPv4_def parseIPv4Fields_def)

lemma parseIPv6_body_loopback:
  "parseIPv6_body ''1'' 0 (replicate 16 0) (Some 0) =
     Inr (Break ([], 2, [0, 1, 0, 0, 0, 0, 0, 0, 0, 0, 0, 0, 0, 0, 0, 0], Some 0))"
  by (simp add: parseIPv6_body_def hexval_def Let_def list_update_Cons_numeral replicate_16)

lemma expand_ellipsis_loopback:
  "expand_ellipsis [0, 1, 0, 0, 0, 0, 0, 0, 0, 0, 0, 0, 0, 0, 0, 0] 0 2 =
     [0, 0, 0, 0, 0, 0, 0, 0, 0, 0, 0, 0, 0, 0, 0, 1]"
  by (simp add: expand_ellipsis_def Let_def upt_rec list_update_Cons_numeral)

lemma ParseAddr_loopback:
  "ParseAddr ''::1'' = Inr (Addr6 [0, 0, 0, 0, 0, 0, 0, 0, 0, 0, 0, 0, 0, 0, 0, 1] [])"
  by (simp add: ParseAddr_def parseIPv6_def Let_def parseIPv6_loop.simps parseIPv6_body_loopback
      expand_ellipsis_loopback)

lemma validateIp_loopback:
  "validateIp (example_request commit\<lparr>IP := ''::1''\<rparr>) =
     Inl (InvalidAddress ([CHR 0x27] @ ''::1'' @ [CHR 0x27] @ '' is not a valid IpV4 address''))"
  by (simp add: validateIp_def ParseIP_def ParseAddr_loopback To4_def isZeros_def example_request_def)

section \<open>Requests that are turned away\<close>

lemma dry_run_trace:
  assumes "validateIp request = Inr ip"
    and "Records appConfig (Host request) = Some hostConfig"
    and "\<not> Commit request"
  shows "ProcessIpChange w client appConfig request tr =
           NotifyPushover w (Pushover appConfig) (Host request) None
             (tr @ [Log DebugLevel
                      [LogInput (MakeChangeRequest (Now w tr) (ZoneId hostConfig) (Host request) ip
                         (Ttl hostConfig))] []])"
  using assms ProcessIpChange_success [OF assms(1,2), of w client tr] 
  by (simp add: UpdateRoute53Record_dry_run)

lemma ProcessIpChange_no_commit_calls:
  assumes "\<not> Commit request"
  shows "remote_calls (ProcessIpChange w client appConfig request tr) = remote_calls tr"
proof (cases "validateIp request")
  case (Inl err)
  then show ?thesis by (simp add: ProcessIpChange_def remote_calls_append)
next
  case (Inr ip)
  show ?thesis
  proof (cases "Records appConfig (Host request)")
    case None
    then show ?thesis using Inr by (simp add: ProcessIpChange_def remote_calls_append)
  next
    case (Some hostConfig)
    show ?thesis
      by (simp add: dry_run_trace [OF Inr Some assms] NotifyPushover_calls
          remote_calls_append)
  qed
qed

text \<open>
  C1. A request whose IP fails validation, and a request with a valid IP whose host is
  not in \<open>Records\<close>: \<open>ProcessIpChange\<close> returns, having added one error record to the
  log and nothing else, so no remote DNS call, no notification and no Pushover message.
\<close>

theorem ProcessIpChange_rejected:
  assumes "(\<exists>err. validateIp request = Inl err) \<or>
           (\<exists>ip. validateIp request = Inr ip \<and> Records appConfig (Host request) = None)"
  shows "ProcessIpChange w client appConfig request tr =
           tr @ [case validateIp request of
                   Inl err \<Rightarrow> Log ErrorLevel [LogRequest request, LogErr err] ''Invalid IP specified''
                 | Inr ip \<Rightarrow> Log ErrorLevel [LogRequest request] ''Hostname not found in config, ignoring'']
         \<and> remote_calls (ProcessIpChange w client appConfig request tr) = remote_calls tr
         \<and> notifications (ProcessIpChange w client appConfig request tr) = notifications tr
         \<and> messages_sent (ProcessIpChange w client appConfig request tr) = messages_sent tr"
proof -
  have eq: "ProcessIpChange w client appConfig request tr =
           tr @ [case validateIp request of
                   Inl err \<Rightarrow> Log ErrorLevel [LogRequest request, LogErr err] ''Invalid IP specified''
                 | Inr ip \<Rightarrow> Log ErrorLevel [LogRequest request] ''Hostname not found in config, ignoring'']"
    using assms by (auto simp: ProcessIpChange_def)
  show ?thesis
    unfolding eq
    by (simp add: remote_calls_append notifications_append messages_sent_append split: sum.split)
qed

theorem ProcessIpChange_rejected_witness:
  "ProcessIpChange example_world rejecting_client example_config
     (example_request True\<lparr>IP := ''::1''\<rparr>) [] =
     [Log ErrorLevel [LogRequest (example_request True\<lparr>IP := ''::1''\<rparr>),
        LogErr (InvalidAddress ([CHR 0x27] @ ''::1'' @ [CHR 0x27] @ '' is not a valid IpV4 address''))]
        ''Invalid IP specified'']
   \<and> ProcessIpChange example_world rejecting_client example_config
     (example_request True\<lparr>Host := ''other.example.com''\<rparr>) [] =
     [Log ErrorLevel [LogRequest (example_request True\<lparr>Host := ''other.example.com''\<rparr>)]
        ''Hostname not found in config, ignoring'']"
proof -
  have v: "validateIp (example_request True\<lparr>Host := ''other.example.com''\<rparr>) = Inr [203, 0, 113, 5]"
    by (simp add: validateIp_iff example_request_def string4_example)
  have a: "(\<exists>err. validateIp (example_request True\<lparr>IP := ''::1''\<rparr>) = Inl err) \<or>
           (\<exists>ip. validateIp (example_request True\<lparr>IP := ''::1''\<rparr>) = Inr ip \<and>
              Records example_config (Host (example_request True\<lparr>IP := ''::1''\<rparr>)) = None)"
    by (simp add: validateIp_loopback)
  have b: "(\<exists>err. validateIp (example_request True\<lparr>Host := ''other.example.com''\<rparr>) = Inl err) \<or>
           (\<exists>ip. validateIp (example_request True\<lparr>Host := ''other.example.com''\<rparr>) = Inr ip \<and>
              Records example_config (Host (example_request True\<lparr>Host := ''other.example.com''\<rparr>)) = None)"
    using v by (simp add: example_config_def example_request_def)
  show ?thesis
    using ProcessIpChange_rejected [OF a, of example_world rejecting_client "[]"]
          ProcessIpChange_rejected [OF b, of example_world rejecting_client "[]"]
    by (simp add: validateIp_loopback v)
qed

section \<open>IPv4-mapped IPv6 literals\<close>

text \<open>
  C2, as it is stated, fails: the IPv6 literal \<open>::ffff:1.2.3.4\<close> is not a
  dotted-decimal IPv4 address (\<open>parseIPv4\<close> rejects it at its first character) and is a
  valid IPv6 address (\<open>parseIPv6\<close> reads it), yet \<open>validateIp\<close> accepts it, with the
  address 1.2.3.4.
\<close>

theorem validateIp_mapped_IPv6_counterexample:
  "parseIPv4 ''::ffff:1.2.3.4'' = Inl (ParseAddrError ''unexpected character'')
   \<and> parseIPv6 ''::ffff:1.2.3.4'' =
       Inr (Addr6 [0, 0, 0, 0, 0, 0, 0, 0, 0, 0, 255, 255, 1, 2, 3, 4] [])
   \<and> validateIp \<lparr>Host = ''example.com'', IP = ''::ffff:1.2.3.4'', Commit = True\<rparr> =
       Inr [1, 2, 3, 4]"
  by (simp add: parseIPv4_mapped parseIPv6_mapped validateIp_def ParseIP_def ParseAddr_mapped
      To4_def isZeros_def)

text \<open>
  C2, amended. \<open>validateIp\<close> returns the 4-byte address \<open>ip\<close> exactly when the string
  is the dotted-decimal form of \<open>ip\<close> (\<open>string4 ip\<close>: four decimal numbers from 0 to 255
  without leading zeros, separated by dots), or is an IPv6 literal without zone that
  \<open>ParseAddr\<close> reads as the IPv4-mapped address \<open>::ffff:ip\<close>. Every other string,
  every other valid IPv6 address among them, fails with the \<open>InvalidAddress\<close> error.
\<close>

theorem validateIp_accepts:
  "(validateIp r = Inr ip \<longleftrightarrow>
      length ip = 4 \<and>
      (IP r = string4 ip \<or> ParseAddr (IP r) = Inr (Addr6 (v4InV6Prefix @ ip) [])))
   \<and> ((\<exists>ip'. validateIp r = Inr ip') \<or>
        validateIp r =
          Inl (InvalidAddress ([CHR 0x27] @ IP r @ [CHR 0x27] @ '' is not a valid IpV4 address'')))"
proof -
  have "(\<exists>ip'. validateIp r = Inr ip') \<or>
        validateIp r =
          Inl (InvalidAddress ([CHR 0x27] @ IP r @ [CHR 0x27] @ '' is not a valid IpV4 address''))"
    by (simp add: validateIp_def Let_def)
  then show ?thesis using validateIp_iff [of r ip] by blast
qed

theorem validateIp_accepts_witness:
  "validateIp (example_request True) = Inr [203, 0, 113, 5]
   \<and> validateIp (example_request True\<lparr>IP := ''::ffff:1.2.3.4''\<rparr>) = Inr [1, 2, 3, 4]
   \<and> validateIp (example_request True\<lparr>IP := ''::1''\<rparr>) \<noteq> Inr [0, 0, 0, 1]"
proof -
  have a: "validateIp (example_request True) = Inr [203, 0, 113, 5]"
    using validateIp_accepts [of "example_request True" "[203, 0, 113, 5]"]
    by (simp add: example_request_def string4_example)
  have b: "validateIp (example_request True\<lparr>IP := ''::ffff:1.2.3.4''\<rparr>) = Inr [1, 2, 3, 4]"
    using validateIp_accepts [of "example_request True\<lparr>IP := ''::ffff:1.2.3.4''\<rparr>" "[1, 2, 3, 4]"]
    by (simp add: ParseAddr_mapped v4InV6Prefix_def)
  have "string4 [0, 0, 0, 1] = ''0.0.0.1''"
    by (simp add: string4_decn decn_def digits_def)
  then have c: "validateIp (example_request True\<lparr>IP := ''::1''\<rparr>) \<noteq> Inr [0, 0, 0, 1]"
    using validateIp_accepts [of "example_request True\<lparr>IP := ''::1''\<rparr>" "[0, 0, 0, 1]"]
    by (simp add: ParseAddr_loopback v4InV6Prefix_def)
  from a b c show ?thesis by simp
qed

section \<open>The commit parameter\<close>

text \<open>
  C3, as it is stated, fails: it has a present \<open>commit\<close> parameter parse as a boolean,
  but a request with \<open>commit=yes\<close> has the parameter, \<open>ParseBool\<close> returns an error
  for it, and the handler still builds the \<open>UpdateRequest\<close>, with \<open>Commit = False\<close>,
  and hands it to \<open>ProcessIpChange\<close>.
\<close>

theorem nicUpdateHandler_commit_counterexample:
  "Form (example_http_request (Some ''yes'')) ''commit'' = Some [''yes'']
   \<and> ParseBool (FormValue (example_http_request (Some ''yes'')) ''commit'') =
       (False, Some (SyntaxError ''ParseBool'' ''yes''))
   \<and> nicUpdateHandler_request (example_http_request (Some ''yes'')) =
       \<lparr>Host = ''example.com'', IP = ''203.0.113.5'', Commit = False\<rparr>
   \<and> nicUpdateHandler example_world accepting_client example_config
         (example_http_request (Some ''yes'')) [] =
       ProcessIpChange example_world accepting_client example_config
         \<lparr>Host = ''example.com'', IP = ''203.0.113.5'', Commit = False\<rparr>
         [Log InfoLevel [LogRequest \<lparr>Host = ''example.com'', IP = ''203.0.113.5'', Commit = False\<rparr>]
            ''Received Update Request'']"
proof -
  have f: "Form (example_http_request (Some ''yes'')) ''commit'' = Some [''yes'']"
    by (simp add: example_http_request_def)
  have v: "FormValue (example_http_request (Some ''yes'')) ''commit'' = ''yes''"
    "FormValue (example_http_request (Some ''yes'')) ''hostname'' = ''example.com''"
    "FormValue (example_http_request (Some ''yes'')) ''ip'' = ''203.0.113.5''"
    by (simp_all add: example_http_request_def FormValue_def)
  have p: "ParseBool ''yes'' = (False, Some (SyntaxError ''ParseBool'' ''yes''))"
    by (simp add: ParseBool_def)
  have r: "nicUpdateHandler_request (example_http_request (Some ''yes'')) =
       \<lparr>Host = ''example.com'', IP = ''203.0.113.5'', Commit = False\<rparr>"
    by (simp add: nicUpdateHandler_request_def f v p)
  show ?thesis
    by (simp add: f v p r nicUpdateHandler_def Let_def)
qed

text \<open>
  C3, amended. When the request has no \<open>commit\<close> parameter the \<open>UpdateRequest\<close> has
  \<open>Commit = True\<close>. When it has one, \<open>Commit\<close> is what \<open>ParseBool\<close> returns for its
  first value: the boolean \<open>b\<close> when it parses (\<open>ParseBool\<close> returns \<open>b\<close> and no
  error), and \<open>False\<close> when it does not, the error being dropped. In every case the
  handler logs the request as received and hands it to \<open>ProcessIpChange\<close>; none is
  turned away for its \<open>commit\<close> parameter.
\<close>

theorem nicUpdateHandler_commit:
  "(Form req ''commit'' = None \<longrightarrow> Commit (nicUpdateHandler_request req) = True)
   \<and> (\<forall>b. Form req ''commit'' \<noteq> None \<and> ParseBool (FormValue req ''commit'') = (b, None)
          \<longrightarrow> Commit (nicUpdateHandler_request req) = b)
   \<and> (Form req ''commit'' \<noteq> None \<and> snd (ParseBool (FormValue req ''commit'')) \<noteq> None
          \<longrightarrow> Commit (nicUpdateHandler_request req) = False)
   \<and> nicUpdateHandler w r53Client appConfig req tr =
       ProcessIpChange w r53Client appConfig (nicUpdateHandler_request req)
         (tr @ [Log InfoLevel [LogRequest (nicUpdateHandler_request req)] ''Received Update Request''])"
proof -
  have unparsed: "snd (ParseBool v) \<noteq> None \<Longrightarrow> fst (ParseBool v) = False" for v
    by (simp add: ParseBool_def split: if_splits)
  have a: "Form req ''commit'' = None \<longrightarrow> Commit (nicUpdateHandler_request req) = True"
    by (simp add: nicUpdateHandler_request_def)
  have b: "\<forall>b. Form req ''commit'' \<noteq> None \<and> ParseBool (FormValue req ''commit'') = (b, None)
          \<longrightarrow> Commit (nicUpdateHandler_request req) = b"
    by (simp add: nicUpdateHandler_request_def)
  have c: "Form req ''commit'' \<noteq> None \<and> snd (ParseBool (FormValue req ''commit'')) \<noteq> None
          \<longrightarrow> Commit (nicUpdateHandler_request req) = False"
    using unparsed [of "FormValue req ''commit''"] by (auto simp: nicUpdateHandler_request_def)
  have d: "nicUpdateHandler w r53Client appConfig req tr =
       ProcessIpChange w r53Client appConfig (nicUpdateHandler_request req)
         (tr @ [Log InfoLevel [LogRequest (nicUpdateHandler_request req)] ''Received Update Request''])"
    by (simp add: nicUpdateHandler_def Let_def)
  from a b c d show ?thesis by blast
qed

theorem nicUpdateHandler_commit_witness:
  "Commit (nicUpdateHandler_request (example_http_request None)) = True
   \<and> Commit (nicUpdateHandler_request (example_http_request (Some ''false''))) = False
   \<and> Commit (nicUpdateHandler_request (example_http_request (Some ''1''))) = True
   \<and> Commit (nicUpdateHandler_request (example_http_request (Some ''yes''))) = False"
proof -
  have a: "Form (example_http_request None) ''commit'' = None"
    by (simp add: example_http_request_def)
  have b: "Form (example_http_request (Some ''false'')) ''commit'' \<noteq> None \<and>
           ParseBool (FormValue (example_http_request (Some ''false'')) ''commit'') = (False, None)"
    by (simp add: example_http_request_def FormValue_def ParseBool_def)
  have c: "Form (example_http_request (Some ''1'')) ''commit'' \<noteq> None \<and>
           ParseBool (FormValue (example_http_request (Some ''1'')) ''commit'') = (True, None)"
    by (simp add: example_http_request_def FormValue_def ParseBool_def)
  have d: "Form (example_http_request (Some ''yes'')) ''commit'' \<noteq> None \<and>
           snd (ParseBool (FormValue (example_http_request (Some ''yes'')) ''commit'')) \<noteq> None"
    by (simp add: example_http_request_def FormValue_def ParseBool_def)
  have 1: "Commit (nicUpdateHandler_request (example_http_request None)) = True"
    using nicUpdateHandler_commit [of "example_http_request None", THEN conjunct1] a by blast
  have 2: "Commit (nicUpdateHandler_request (example_http_request (Some ''false''))) = False"
    using nicUpdateHandler_commit [of "example_http_request (Some ''false'')",
        THEN conjunct2, THEN conjunct1] b by blast
  have 3: "Commit (nicUpdateHandler_request (example_http_request (Some ''1''))) = True"
    using nicUpdateHandler_commit [of "example_http_request (Some ''1'')",
        THEN conjunct2, THEN conjunct1] c by blast
  have 4: "Commit (nicUpdateHandler_request (example_http_request (Some ''yes''))) = False"
    using nicUpdateHandler_commit [of "example_http_request (Some ''yes'')",
        THEN conjunct2, THEN conjunct2, THEN conjunct1] d by blast
  from 1 2 3 4 show ?thesis by simp
qed

text \<open>
  C9. When the request has a \<open>commit\<close> parameter that does not parse as a boolean, the
  handler does not turn the request away: it builds the \<open>UpdateRequest\<close> with
  \<open>Commit = False\<close>, logs it as received like any other and hands it to
  \<open>ProcessIpChange\<close>, which then makes no remote DNS call.
\<close>

theorem nicUpdateHandler_unparsable_commit:
  assumes "Form req ''commit'' \<noteq> None"
    and "snd (ParseBool (FormValue req ''commit'')) \<noteq> None"
  shows "Commit (nicUpdateHandler_request req) = False
   \<and> nicUpdateHandler w r53Client appConfig req tr =
       ProcessIpChange w r53Client appConfig (nicUpdateHandler_request req)
         (tr @ [Log InfoLevel [LogRequest (nicUpdateHandler_request req)] ''Received Update Request''])
   \<and> remote_calls (nicUpdateHandler w r53Client appConfig req tr) = remote_calls tr"
proof -
  have c: "\<not> Commit (nicUpdateHandler_request req)"
    using assms by (auto simp: nicUpdateHandler_request_def ParseBool_def split: if_splits)
  have h: "nicUpdateHandler w r53Client appConfig req tr =
       ProcessIpChange w r53Client appConfig (nicUpdateHandler_request req)
         (tr @ [Log InfoLevel [LogRequest (nicUpdateHandler_request req)] ''Received Update Request''])"
    by (simp add: nicUpdateHandler_def Let_def)
  show ?thesis
    using c h ProcessIpChange_no_commit_calls [OF c, of w r53Client appConfig]
    by (simp add: remote_calls_append)
qed

theorem nicUpdateHandler_unparsable_commit_witness:
  "nicUpdateHandler_request (example_http_request (Some ''yes'')) = example_request False
   \<and> remote_calls (nicUpdateHandler example_world accepting_client example_config
        (example_http_request (Some ''yes'')) []) = []
   \<and> notifications (nicUpdateHandler example_world accepting_client example_config
        (example_http_request (Some ''yes'')) []) = [(''example.com'', None)]"
proof -
  have a: "Form (example_http_request (Some ''yes'')) ''commit'' \<noteq> None"
    by (simp add: example_http_request_def)
  have b: "snd (ParseBool (FormValue (example_http_request (Some ''yes'')) ''commit'')) \<noteq> None"
    by (simp add: example_http_request_def FormValue_def ParseBool_def)
  have r: "nicUpdateHandler_request (example_http_request (Some ''yes'')) = example_request False"
    using nicUpdateHandler_unparsable_commit [OF a b]
    by (simp add: nicUpdateHandler_request_def example_http_request_def FormValue_def
        example_request_def)
  have d: "\<not> Commit (example_request False)" by (simp add: example_request_def)
  have n: "notifications (ProcessIpChange example_world accepting_client example_config
             (example_request False)
             [Log InfoLevel [LogRequest (example_request False)] ''Received Update Request'']) =
           [(''example.com'', None)]"
    unfolding dry_run_trace [OF validateIp_example Records_example d]
    by (simp add: NotifyPushover_notifications notifications_append example_request_def)
  note t = nicUpdateHandler_unparsable_commit [OF a b, of example_world accepting_client
      example_config "[]"]
  from t have t3: "remote_calls (nicUpdateHandler example_world accepting_client example_config
        (example_http_request (Some ''yes'')) []) = remote_calls []"
    by blast
  from t have t2: "nicUpdateHandler example_world accepting_client example_config
        (example_http_request (Some ''yes'')) [] =
      ProcessIpChange example_world accepting_client example_config
        (nicUpdateHandler_request (example_http_request (Some ''yes'')))
        ([] @ [Log InfoLevel [LogRequest (nicUpdateHandler_request (example_http_request (Some ''yes'')))]
           ''Received Update Request''])"
    by blast
  have "notifications (nicUpdateHandler example_world accepting_client example_config
        (example_http_request (Some ''yes'')) []) = [(''example.com'', None)]"
    unfolding t2 r using n by simp
  then show ?thesis using r t3 by simp
qed

section \<open>The primary update and its notification\<close>

lemma ProcessIpChange_failure_trace:
  assumes "validateIp request = Inr ip"
    and "Records appConfig (Host request) = Some hostConfig"
    and "UpdateRoute53Record w client hostConfig (Host request) ip (Commit request) tr = (Some e, tr1)"
  shows "\<exists>nows errs.
           length nows = length (AdditionalHosts hostConfig) \<and>
           length errs = length (AdditionalHosts hostConfig) \<and>
           remote_calls (ProcessIpChange w client appConfig request tr) =
             remote_calls tr1 @
             fanout_calls (ZoneId hostConfig) (Ttl hostConfig) ip (AdditionalHosts hostConfig) nows errs \<and>
           notifications (ProcessIpChange w client appConfig request tr) =
             notifications tr @ (Host request, Some e) #
             failure_notifications (AdditionalHosts hostConfig) errs"
proof -
  define tr2 where "tr2 = NotifyPushover w (Pushover appConfig) (Host request) (Some e) tr1"
  have p: "ProcessIpChange w client appConfig request tr =
           ProcessIpChange_additional w client appConfig hostConfig ip True
             (AdditionalHosts hostConfig) tr2"
    unfolding tr2_def by (rule ProcessIpChange_failure [OF assms])
  have c2: "remote_calls tr2 = remote_calls tr1"
    by (simp add: tr2_def NotifyPushover_calls)
  have n2: "notifications tr2 = notifications tr @ [(Host request, Some e)]"
    using UpdateRoute53Record_notifications [OF assms(3)]
    by (simp add: tr2_def NotifyPushover_notifications)
  from fanout_trace [of "AdditionalHosts hostConfig" w client appConfig hostConfig ip tr2]
  show ?thesis unfolding p c2 n2 by simp
qed

text \<open>
  C4. For a valid request for a configured host, let \<open>err\<close> be what the primary update
  returns. If it is nil, the only remote call is the primary host's (none at all in a
  dry run), so no additional host is called, and the only notification is the primary
  host's, with a nil error; with Pushover configured the one message sent is the
  success message. Whatever \<open>err\<close> is, the notifications of the request start with the
  primary host's outcome and every later one is the failure of an additional host.
\<close>

theorem ProcessIpChange_primary_notified:
  assumes "validateIp request = Inr ip"
    and "Records appConfig (Host request) = Some hostConfig"
    and "UpdateRoute53Record w client hostConfig (Host request) ip (Commit request) tr = (err, tr1)"
  shows "(err = None \<longrightarrow>
            remote_calls (ProcessIpChange w client appConfig request tr) =
              remote_calls tr @
              (if Commit request
               then [(MakeChangeRequest (Now w tr) (ZoneId hostConfig) (Host request) ip
                        (Ttl hostConfig), None)]
               else []) \<and>
            notifications (ProcessIpChange w client appConfig request tr) =
              notifications tr @ [(Host request, None)] \<and>
            messages_sent (ProcessIpChange w client appConfig request tr) =
              messages_sent tr @
              (if ApiToken (Pushover appConfig) = [] \<or> RecipientKey (Pushover appConfig) = []
               then [] else [''IP Updated for: '' @ Host request]))
         \<and> (\<exists>errs. notifications (ProcessIpChange w client appConfig request tr) =
               notifications tr @ (Host request, err) #
               failure_notifications (AdditionalHosts hostConfig) errs)"
proof (cases err)
  case None
  have p: "ProcessIpChange w client appConfig request tr =
           NotifyPushover w (Pushover appConfig) (Host request) None tr1"
    using ProcessIpChange_success [OF assms(1,2)] assms(3) None by simp
  have c: "remote_calls (ProcessIpChange w client appConfig request tr) =
              remote_calls tr @
              (if Commit request
               then [(MakeChangeRequest (Now w tr) (ZoneId hostConfig) (Host request) ip
                        (Ttl hostConfig), None)]
               else [])"
    using UpdateRoute53Record_calls [OF assms(3)] None by (simp add: p NotifyPushover_calls)
  have n: "notifications (ProcessIpChange w client appConfig request tr) =
              notifications tr @ [(Host request, None)]"
    using UpdateRoute53Record_notifications [OF assms(3)]
    by (simp add: p NotifyPushover_notifications)
  have m: "messages_sent (ProcessIpChange w client appConfig request tr) =
              messages_sent tr @
              (if ApiToken (Pushover appConfig) = [] \<or> RecipientKey (Pushover appConfig) = []
               then [] else [''IP Updated for: '' @ Host request])"
    using UpdateRoute53Record_notifications [OF assms(3)]
    by (simp add: p NotifyPushover_messages)
  have "notifications (ProcessIpChange w client appConfig request tr) =
               notifications tr @ (Host request, err) #
               failure_notifications (AdditionalHosts hostConfig) []"
    using n None by simp
  then show ?thesis using c n m by blast
next
  case (Some e)
  from ProcessIpChange_failure_trace [OF assms(1,2), of w client tr e tr1] assms(3) Some
  show ?thesis by auto
qed

theorem ProcessIpChange_primary_notified_witness:
  "remote_calls (ProcessIpChange example_world accepting_client example_config
      (example_request True) []) =
     [(MakeChangeRequest ''T'' ''Z1'' ''example.com'' [203, 0, 113, 5] 300, None)]
   \<and> notifications (ProcessIpChange example_world accepting_client example_config
      (example_request True) []) = [(''example.com'', None)]
   \<and> messages_sent (ProcessIpChange example_world accepting_client example_config
      (example_request True) []) = [''IP Updated for: example.com'']"
proof -
  obtain tr1 where u: "UpdateRoute53Record example_world accepting_client example_host
      (Host (example_request True)) [203, 0, 113, 5] (Commit (example_request True)) [] = (None, tr1)"
    by (simp add: UpdateRoute53Record_def accepting_client_def example_request_def Let_def)
  show ?thesis
    using ProcessIpChange_primary_notified [OF validateIp_example Records_example u]
    by (simp add: example_request_def example_world_def example_host_def example_config_def)
qed

section \<open>The fan-out over the additional hosts\<close>

lemma UpdateRoute53Record_snd_calls:
  "remote_calls (snd (UpdateRoute53Record w client hc h ip commit tr)) =
     remote_calls tr @
     (if commit then [(MakeChangeRequest (Now w tr) (ZoneId hc) h ip (Ttl hc),
                       fst (UpdateRoute53Record w client hc h ip commit tr))] else [])"
  using UpdateRoute53Record_calls [of w client hc h ip commit tr
      "fst (UpdateRoute53Record w client hc h ip commit tr)"
      "snd (UpdateRoute53Record w client hc h ip commit tr)"]
  by simp

lemma UpdateRoute53Record_snd_notifications:
  "notifications (snd (UpdateRoute53Record w client hc h ip commit tr)) = notifications tr"
  using UpdateRoute53Record_notifications [of w client hc h ip commit tr
      "fst (UpdateRoute53Record w client hc h ip commit tr)"
      "snd (UpdateRoute53Record w client hc h ip commit tr)"]
  by simp

lemma backup_only_client_result:
  "fst (UpdateRoute53Record w backup_only_client hc h ip True tr) =
     (if h = ''backup.example.com'' then None else Some (RemoteUpdateFailure ''AccessDenied''))"
proof -
  have "''backup.example.com.'' = ''backup.example.com'' @ ''.''" by simp
  then have "(h @ ''.'' = ''backup.example.com.'') = (h = ''backup.example.com'')"
    by (simp only: append_same_eq)
  then show ?thesis
    by (simp add: UpdateRoute53Record_def backup_only_client_def MakeChangeRequest_def Let_def
        split_def)
qed

lemma ProcessIpChange_example:
  "ProcessIpChange w client example_config (example_request True) tr =
     (let u = UpdateRoute53Record w client example_host ''example.com'' [203, 0, 113, 5] True tr;
          tr2 = NotifyPushover w (Pushover example_config) ''example.com'' (fst u) (snd u)
      in if fst u \<noteq> None
         then ProcessIpChange_additional w client example_config example_host [203, 0, 113, 5] True
                [''backup.example.com'', ''backup2.example.com''] tr2
         else tr2)"
proof -
  obtain err tr1 where u: "UpdateRoute53Record w client example_host (Host (example_request True))
      [203, 0, 113, 5] (Commit (example_request True)) tr = (err, tr1)"
    by (cases "UpdateRoute53Record w client example_host (Host (example_request True))
      [203, 0, 113, 5] (Commit (example_request True)) tr")
  have h: "Host (example_request True) = ''example.com''" "Commit (example_request True)"
    "AdditionalHosts example_host = [''backup.example.com'', ''backup2.example.com'']"
    by (simp_all add: example_request_def example_host_def)
  show ?thesis
    using ProcessIpChange_configured [OF validateIp_example Records_example u] u
    by (simp add: h Let_def)
qed

lemma example_fanout_calls:
  "remote_calls (ProcessIpChange example_world backup_only_client example_config
      (example_request True) []) =
     [(MakeChangeRequest ''T'' ''Z1'' ''example.com'' [203, 0, 113, 5] 300,
       Some (RemoteUpdateFailure ''AccessDenied'')),
      (MakeChangeRequest ''T'' ''Z1'' ''backup.example.com'' [203, 0, 113, 5] 300, None),
      (MakeChangeRequest ''T'' ''Z1'' ''backup2.example.com'' [203, 0, 113, 5] 300,
       Some (RemoteUpdateFailure ''AccessDenied''))]"
proof -
  have w: "Now example_world = (\<lambda>tr. ''T'')" "ZoneId example_host = ''Z1''" "Ttl example_host = 300"
    by (simp_all add: example_world_def example_host_def)
  show ?thesis
    by (simp add: ProcessIpChange_example Let_def split_def backup_only_client_result
        UpdateRoute53Record_snd_calls NotifyPushover_calls w)
qed

lemma example_fanout_notifications:
  "notifications (ProcessIpChange example_world backup_only_client example_config
      (example_request True) []) =
     [(''example.com'', Some (RemoteUpdateFailure ''AccessDenied'')),
      (''backup2.example.com'', Some (RemoteUpdateFailure ''AccessDenied''))]"
  by (simp add: ProcessIpChange_example Let_def split_def backup_only_client_result
      UpdateRoute53Record_snd_notifications NotifyPushover_notifications)


text \<open>
  C5. For a valid request for a configured host, let \<open>err\<close> be what the primary update
  returns and \<open>tr1\<close> the trace after it. If \<open>err\<close> is an error, the remote calls made
  after the primary one are one per additional host, in the configured order, each the
  change request built from the primary's zone, its TTL and the validated address under
  that host's name; the answers \<open>errs\<close> of these calls are arbitrary, so a failed call
  does not stop the later ones. If \<open>err\<close> is nil, no remote call follows the primary
  update.
\<close>

theorem ProcessIpChange_fanout_calls:
  assumes "validateIp request = Inr ip"
    and "Records appConfig (Host request) = Some hostConfig"
    and "UpdateRoute53Record w client hostConfig (Host request) ip (Commit request) tr = (err, tr1)"
  shows "(err \<noteq> None \<longrightarrow>
            (\<exists>nows errs.
               length nows = length (AdditionalHosts hostConfig) \<and>
               length errs = length (AdditionalHosts hostConfig) \<and>
               remote_calls (ProcessIpChange w client appConfig request tr) =
                 remote_calls tr1 @
                 fanout_calls (ZoneId hostConfig) (Ttl hostConfig) ip (AdditionalHosts hostConfig)
                   nows errs))
         \<and> (err = None \<longrightarrow>
              remote_calls (ProcessIpChange w client appConfig request tr) = remote_calls tr1)"
proof (cases err)
  case None
  then show ?thesis
    using ProcessIpChange_success [OF assms(1,2), of w client tr tr1] assms(3)
    by (simp add: NotifyPushover_calls)
next
  case (Some e)
  from ProcessIpChange_failure_trace [OF assms(1,2), of w client tr e tr1] assms(3) Some
  show ?thesis by auto
qed

theorem ProcessIpChange_fanout_calls_witness:
  "(\<exists>nows errs. length nows = 2 \<and> length errs = 2 \<and>
      remote_calls (ProcessIpChange example_world backup_only_client example_config
        (example_request True) []) =
        [(MakeChangeRequest ''T'' ''Z1'' ''example.com'' [203, 0, 113, 5] 300,
          Some (RemoteUpdateFailure ''AccessDenied''))] @
        fanout_calls ''Z1'' 300 [203, 0, 113, 5] [''backup.example.com'', ''backup2.example.com'']
          nows errs)
   \<and> remote_calls (ProcessIpChange example_world backup_only_client example_config
        (example_request True) []) =
       [(MakeChangeRequest ''T'' ''Z1'' ''example.com'' [203, 0, 113, 5] 300,
         Some (RemoteUpdateFailure ''AccessDenied'')),
        (MakeChangeRequest ''T'' ''Z1'' ''backup.example.com'' [203, 0, 113, 5] 300, None),
        (MakeChangeRequest ''T'' ''Z1'' ''backup2.example.com'' [203, 0, 113, 5] 300,
         Some (RemoteUpdateFailure ''AccessDenied''))]"
proof -
  obtain tr1 where u: "UpdateRoute53Record example_world backup_only_client example_host
      (Host (example_request True)) [203, 0, 113, 5] (Commit (example_request True)) [] =
      (Some (RemoteUpdateFailure ''AccessDenied''), tr1)"
    using backup_only_client_result [of example_world example_host "''example.com''"
        "[203, 0, 113, 5]" "[]"]
    by (cases "UpdateRoute53Record example_world backup_only_client example_host
      (Host (example_request True)) [203, 0, 113, 5] (Commit (example_request True)) []")
      (simp add: example_request_def)
  have c1: "remote_calls tr1 =
      [(MakeChangeRequest ''T'' ''Z1'' ''example.com'' [203, 0, 113, 5] 300,
        Some (RemoteUpdateFailure ''AccessDenied''))]"
    using UpdateRoute53Record_calls [OF u]
    by (simp add: example_request_def example_world_def example_host_def)
  show ?thesis
    using ProcessIpChange_fanout_calls [OF validateIp_example Records_example u]
    by (simp add: c1 example_fanout_calls) (simp add: example_host_def numeral_2_eq_2)
qed

text \<open>
  C6. When the primary update of a valid request for a configured host fails, the
  additional hosts are called with some answers \<open>errs\<close>, and the notifications that
  follow the primary host's are exactly those of \<open>failure_notifications\<close>: one for each
  additional host whose own call was answered with an error, carrying that error, and
  none for a host whose call succeeded.
\<close>

theorem ProcessIpChange_fanout_notifications:
  assumes "validateIp request = Inr ip"
    and "Records appConfig (Host request) = Some hostConfig"
    and "UpdateRoute53Record w client hostConfig (Host request) ip (Commit request) tr = (Some e, tr1)"
  shows "\<exists>nows errs.
           length nows = length (AdditionalHosts hostConfig) \<and>
           length errs = length (AdditionalHosts hostConfig) \<and>
           remote_calls (ProcessIpChange w client appConfig request tr) =
             remote_calls tr1 @
             fanout_calls (ZoneId hostConfig) (Ttl hostConfig) ip (AdditionalHosts hostConfig) nows errs \<and>
           notifications (ProcessIpChange w client appConfig request tr) =
             notifications tr @ (Host request, Some e) #
             failure_notifications (AdditionalHosts hostConfig) errs"
  by (rule ProcessIpChange_failure_trace [OF assms])

theorem ProcessIpChange_fanout_notifications_witness:
  "notifications (ProcessIpChange example_world backup_only_client example_config
      (example_request True) []) =
     [(''example.com'', Some (RemoteUpdateFailure ''AccessDenied'')),
      (''backup2.example.com'', Some (RemoteUpdateFailure ''AccessDenied''))]"
proof -
  obtain tr1 where u: "UpdateRoute53Record example_world backup_only_client example_host
      (Host (example_request True)) [203, 0, 113, 5] (Commit (example_request True)) [] =
      (Some (RemoteUpdateFailure ''AccessDenied''), tr1)"
    using backup_only_client_result [of example_world example_host "''example.com''"
        "[203, 0, 113, 5]" "[]"]
    by (cases "UpdateRoute53Record example_world backup_only_client example_host
      (Host (example_request True)) [203, 0, 113, 5] (Commit (example_request True)) []")
      (simp add: example_request_def)
  have c1: "remote_calls tr1 =
      [(MakeChangeRequest ''T'' ''Z1'' ''example.com'' [203, 0, 113, 5] 300,
        Some (RemoteUpdateFailure ''AccessDenied''))]"
    using UpdateRoute53Record_calls [OF u]
    by (simp add: example_request_def example_world_def example_host_def)
  have hs: "AdditionalHosts example_host = [''backup.example.com'', ''backup2.example.com'']"
    by (simp add: example_host_def)
  note t = ProcessIpChange_fanout_notifications [OF validateIp_example Records_example u,
      unfolded hs]
  from t obtain nows errs
    where l: "length nows = length [''backup.example.com'', ''backup2.example.com'']"
      "length errs = length [''backup.example.com'', ''backup2.example.com'']"
    and c: "remote_calls (ProcessIpChange example_world backup_only_client example_config
              (example_request True) []) =
            remote_calls tr1 @ fanout_calls (ZoneId example_host) (Ttl example_host) [203, 0, 113, 5]
              [''backup.example.com'', ''backup2.example.com''] nows errs"
    and n: "notifications (ProcessIpChange example_world backup_only_client example_config
              (example_request True) []) =
            notifications [] @
            (Host (example_request True), Some (RemoteUpdateFailure ''AccessDenied'')) #
            failure_notifications [''backup.example.com'', ''backup2.example.com''] errs"
    by blast
  obtain n1 n2 where nows: "nows = [n1, n2]"
    using l(1) by (auto simp: length_Suc_conv)
  obtain e1 e2 where errs: "errs = [e1, e2]"
    using l(2) by (auto simp: length_Suc_conv)
  have "e1 = None \<and> e2 = Some (RemoteUpdateFailure ''AccessDenied'')"
    using c unfolding example_fanout_calls c1 nows errs by simp
  then show ?thesis using n errs by (simp add: example_request_def)
qed

section \<open>Dry runs\<close>

text \<open>
  C7. For a valid request for a configured host with \<open>Commit = False\<close>, the update of
  the primary host builds the change request and logs it, makes no remote call and
  returns nil; \<open>ProcessIpChange\<close> then only notifies, so the whole request makes no
  remote DNS call.
\<close>

theorem ProcessIpChange_dry_run:
  assumes "validateIp request = Inr ip"
    and "Records appConfig (Host request) = Some hostConfig"
    and "\<not> Commit request"
  shows "UpdateRoute53Record w client hostConfig (getHostname request) ip (Commit request) tr =
           (None, tr @ [Log DebugLevel
                          [LogInput (MakeChangeRequest (Now w tr) (ZoneId hostConfig) (Host request)
                             ip (Ttl hostConfig))] []])
         \<and> ProcessIpChange w client appConfig request tr =
             NotifyPushover w (Pushover appConfig) (Host request) None
               (tr @ [Log DebugLevel
                        [LogInput (MakeChangeRequest (Now w tr) (ZoneId hostConfig) (Host request)
                           ip (Ttl hostConfig))] []])
         \<and> remote_calls (ProcessIpChange w client appConfig request tr) = remote_calls tr"
  using assms(3) dry_run_trace [OF assms, of w client tr]
    ProcessIpChange_no_commit_calls [OF assms(3), of w client appConfig tr]
  by (simp add: UpdateRoute53Record_dry_run getHostname_def)

theorem ProcessIpChange_dry_run_witness:
  "UpdateRoute53Record example_world rejecting_client example_host
      (getHostname (example_request False)) [203, 0, 113, 5] (Commit (example_request False)) [] =
     (None, [Log DebugLevel
               [LogInput (MakeChangeRequest ''T'' ''Z1'' ''example.com'' [203, 0, 113, 5] 300)] []])
   \<and> remote_calls (ProcessIpChange example_world rejecting_client example_config
        (example_request False) []) = []"
proof -
  have d: "\<not> Commit (example_request False)" by (simp add: example_request_def)
  note t = ProcessIpChange_dry_run [OF validateIp_example Records_example d,
      of example_world rejecting_client "[]"]
  show ?thesis
    using t [THEN conjunct1] t [THEN conjunct2, THEN conjunct2]
    by (simp add: example_request_def example_world_def example_host_def)
qed

text \<open>
  C10. For a valid request for a configured host with \<open>Commit = False\<close>, the primary
  host is notified once, with a nil error, although no remote DNS call was made; with
  Pushover configured the message sent is the success message.
\<close>

theorem dry_run_still_notifies:
  assumes "validateIp request = Inr ip"
    and "Records appConfig (Host request) = Some hostConfig"
    and "\<not> Commit request"
  shows "notifications (ProcessIpChange w client appConfig request tr) =
           notifications tr @ [(Host request, None)]
         \<and> remote_calls (ProcessIpChange w client appConfig request tr) = remote_calls tr
         \<and> messages_sent (ProcessIpChange w client appConfig request tr) =
             messages_sent tr @
             (if ApiToken (Pushover appConfig) = [] \<or> RecipientKey (Pushover appConfig) = []
              then [] else [''IP Updated for: '' @ Host request])"
  using ProcessIpChange_no_commit_calls [OF assms(3), of w client appConfig tr]
  by (simp add: dry_run_trace [OF assms] NotifyPushover_notifications
      NotifyPushover_messages notifications_append messages_sent_append)

theorem dry_run_still_notifies_witness:
  "notifications (ProcessIpChange example_world rejecting_client example_config
      (example_request False) []) = [(''example.com'', None)]
   \<and> remote_calls (ProcessIpChange example_world rejecting_client example_config
      (example_request False) []) = []
   \<and> messages_sent (ProcessIpChange example_world rejecting_client example_config
      (example_request False) []) = [''IP Updated for: example.com'']"
proof -
  have d: "\<not> Commit (example_request False)" by (simp add: example_request_def)
  note t = dry_run_still_notifies [OF validateIp_example Records_example d,
      of example_world rejecting_client "[]"]
  show ?thesis
    using t by (simp add: example_request_def example_config_def)
qed

section \<open>The change request\<close>

text \<open>
  C8. For every zone, hostname, address, TTL and clock reading, the change request has
  exactly two changes, both \<open>UPSERT\<close>: an A record named \<open>hostname @ ''.''\<close> with the
  given TTL whose single value is the string form of the address, and a TXT record of the
  same name and TTL whose single value is the quoted text \<open>Last Updated: \<close> followed by
  the clock reading. The request is addressed to the given zone.
\<close>

theorem MakeChangeRequest_changes:
  "Changes (Batch (MakeChangeRequest now zoneId hostname ip ttl)) =
     [\<lparr>Action = ChangeActionUpsert,
       RecordSet = \<lparr>Name = hostname @ ''.'', Type = RRTypeA, TTL = ttl,
                     ResourceRecords = [\<lparr>Value = IP_String ip\<rparr>]\<rparr>\<rparr>,
      \<lparr>Action = ChangeActionUpsert,
       RecordSet = \<lparr>Name = hostname @ ''.'', Type = RRTypeTxt, TTL = ttl,
                     ResourceRecords = [\<lparr>Value = [CHR 0x22] @ ''Last Updated: '' @ now @ [CHR 0x22]\<rparr>]\<rparr>\<rparr>]
   \<and> HostedZoneId (MakeChangeRequest now zoneId hostname ip ttl) = zoneId"
  by (simp add: MakeChangeRequest_def Let_def)

theorem MakeChangeRequest_changes_witness:
  "map (\<lambda>c. (Action c, Type (RecordSet c), Name (RecordSet c), TTL (RecordSet c),
             map Value (ResourceRecords (RecordSet c))))
     (Changes (Batch (MakeChangeRequest ''T'' ''Z1'' ''example.com'' [203, 0, 113, 5] 300))) =
     [(ChangeActionUpsert, RRTypeA, ''example.com.'', 300, [''203.0.113.5'']),
      (ChangeActionUpsert, RRTypeTxt, ''example.com.'', 300,
       [[CHR 0x22] @ ''Last Updated: T'' @ [CHR 0x22]])]"
proof -
  have "IP_String [203, 0, 113, 5] = ''203.0.113.5''"
    by (simp add: IP_String_def To4_def string4_example)
  then show ?thesis
    using MakeChangeRequest_changes [of "''T''" "''Z1''" "''example.com''" "[203, 0, 113, 5]" 300]
    by simp
qed

end
